theory Spec2Isabelle
  imports Main "HOL-Library.List_Lexorder" "HOL-Library.Word"
begin

section \<open>Python strings\<close>

text \<open>
  A Python \<^verbatim>\<open>str\<close> is a sequence of Unicode code points. It is modelled as the list of
  its code points, each a natural number, so that \<^verbatim>\<open>len\<close>, slicing, \<^verbatim>\<open>strip\<close> and the
  ordering used by \<^verbatim>\<open>sorted\<close> (lexicographic on code points, which is the order
  \<^verbatim>\<open>List_Lexorder\<close> gives to lists) are those of the source.
  \<open>py ''abc''\<close> is the Python literal \<^verbatim>\<open>"abc"\<close>. A code point is at most 1114111; a list
  with a larger number stands for no string.
\<close>

type_synonym pystr = "nat list"

definition py :: "string \<Rightarrow> pystr" where
  "py cs = map of_char cs"

definition newline :: nat where
  "newline = 10"

definition dquote :: nat where
  "dquote = 34"

definition backslash :: nat where
  "backslash = 92"

definition squote :: nat where
  "squote = 39"

text \<open>
  What the \<^verbatim>\<open>utf-8\<close> codec encodes: every string without a surrogate code point
  (U+D800 to U+DFFF). \<^verbatim>\<open>json.load\<close> yields a lone surrogate for an escape such as
  \<^verbatim>\<open>\ud800\<close>, and a file name can hold one too.
\<close>

definition utf8_encodable :: "pystr \<Rightarrow> bool" where
  "utf8_encodable s \<longleftrightarrow> (\<forall>c\<in>set s. c < 55296 \<or> 57343 < c)"

datatype py_error = UnicodeEncodeError

text \<open>
  \<^verbatim>\<open>str.isspace\<close> for one character: the code points Python's \<^verbatim>\<open>strip\<close>, \<^verbatim>\<open>lstrip\<close>
  and \<^verbatim>\<open>rstrip\<close> remove when called with no argument.
\<close>

definition isspace :: "nat \<Rightarrow> bool" where
  "isspace c \<longleftrightarrow>
     (9 \<le> c \<and> c \<le> 13) \<or> (28 \<le> c \<and> c \<le> 32) \<or> c = 133 \<or> c = 160 \<or> c = 5760 \<or>
     (8192 \<le> c \<and> c \<le> 8202) \<or> c = 8232 \<or> c = 8233 \<or> c = 8239 \<or> c = 8287 \<or> c = 12288"

definition lstrip :: "pystr \<Rightarrow> pystr" where
  "lstrip s = dropWhile isspace s"

definition rstrip :: "pystr \<Rightarrow> pystr" where
  "rstrip s = rev (dropWhile isspace (rev s))"

definition strip :: "pystr \<Rightarrow> pystr" where
  "strip s = rstrip (lstrip s)"

text \<open>\<^verbatim>\<open>s.startswith(p)\<close> and the substring test \<^verbatim>\<open>sub in s\<close>.\<close>

fun startswith :: "pystr \<Rightarrow> pystr \<Rightarrow> bool" where
  "startswith s [] = True"
| "startswith [] (p # ps) = False"
| "startswith (c # cs) (p # ps) = (c = p \<and> startswith cs ps)"

fun str_in :: "pystr \<Rightarrow> pystr \<Rightarrow> bool" where
  "str_in sub [] = (sub = [])"
| "str_in sub (c # cs) = (startswith (c # cs) sub \<or> str_in sub cs)"

section \<open>Manifest synchronization (country\_json\_api\_fetch.py)\<close>

definition svg_rel_path :: pystr where
  "svg_rel_path = py ''assets/data/svg/''"

text \<open>
  The test of line 117: the line refers to the flags folder and is a file declaration.
\<close>

definition is_flag_line :: "pystr \<Rightarrow> bool" where
  "is_flag_line line \<longleftrightarrow> str_in svg_rel_path line \<and> str_in (py ''<file>'') line"

definition is_closing_line :: "pystr \<Rightarrow> bool" where
  "is_closing_line line \<longleftrightarrow> str_in (py ''</gresource>'') line"

text \<open>
  Lines 123 and 126: \<^verbatim>\<open>line[:len(line) - len(line.lstrip())]\<close>, then four spaces more.
\<close>

definition closing_tag_indent :: "pystr \<Rightarrow> pystr" where
  "closing_tag_indent line = take (length line - length (lstrip line)) line"

definition file_indent :: "pystr \<Rightarrow> pystr" where
  "file_indent line = closing_tag_indent line @ py ''    ''"

text \<open>Line 129: the declaration written for one file name.\<close>

definition file_line :: "pystr \<Rightarrow> pystr \<Rightarrow> pystr" where
  "file_line indent filename =
     indent @ py ''<file>'' @ svg_rel_path @ filename @ py ''</file>'' @ [newline]"

text \<open>
  The loop of lines 115 to 132 over the lines read from the manifest. \<open>svg_files\<close> is the
  list the caller passes (\<^verbatim>\<open>downloaded_svgs\<close>); \<open>new_lines\<close> is the list being built.
\<close>

fun update_lines :: "pystr list \<Rightarrow> pystr list \<Rightarrow> pystr list \<Rightarrow> pystr list" where
  "update_lines svg_files [] new_lines = new_lines"
| "update_lines svg_files (line # lines) new_lines =
     (if is_flag_line line then update_lines svg_files lines new_lines
      else if is_closing_line line then
        update_lines svg_files lines
          (new_lines @ map (file_line (file_indent line)) (sort svg_files) @ [line])
      else update_lines svg_files lines (new_lines @ [line]))"

text \<open>
  \<^verbatim>\<open>update_gresource_xml\<close>. The manifest file is \<open>None\<close> when it does not exist, and
  otherwise the list of lines \<^verbatim>\<open>readlines\<close> returns and \<^verbatim>\<open>writelines\<close> stores. The result
  is the file afterwards and the messages printed. How text-mode reading cuts the file
  into lines and translates line ends lies before this list and is not part of the model.
\<close>

definition update_gresource_xml ::
    "pystr list \<Rightarrow> pystr list option \<Rightarrow> pystr list option \<times> pystr list" where
  "update_gresource_xml svg_files xml_file =
     (case xml_file of
        None \<Rightarrow> (None, [py ''Error: GResource XML file not found.''])
      | Some lines \<Rightarrow>
          (Some (update_lines svg_files lines []),
           [py ''Updating GResource XML...'', py ''XML updated successfully.'']))"

section \<open>Record normalization and the country pipeline (country\_json\_api\_fetch.py)\<close>

text \<open>
  \<^verbatim>\<open>format_dial_code\<close>, lines 82 to 93. The result \<open>None\<close> is Python's \<^verbatim>\<open>None\<close>. The
  arguments are what the caller passes after its \<^verbatim>\<open>.get\<close> defaults: a string, a list of
  strings and a string.
\<close>

definition format_dial_code :: "pystr \<Rightarrow> pystr list \<Rightarrow> pystr \<Rightarrow> pystr option" where
  "format_dial_code root suffixes cca2 =
     (if root = [] then None
      else if root = py ''+1'' \<and> cca2 \<in> set [py ''US'', py ''CA''] then Some (py ''+1'')
      else if root = py ''+1'' \<and> suffixes \<noteq> [] then Some (root @ hd suffixes)
      else if root = py ''+7'' \<and> cca2 \<in> set [py ''RU'', py ''KZ''] then Some (py ''+7'')
      else Some (root @ (case suffixes of [] \<Rightarrow> [] | suffix # _ \<Rightarrow> suffix)))"

text \<open>
  What the pipeline takes from outside: the answer of the remote provider, the prefix
  read from the manifest by \<^verbatim>\<open>get_gresource_prefix\<close>, whether the \<open>i\<close>-th record's
  \<^verbatim>\<open>urlretrieve(url, filepath)\<close> succeeds, Python's Unicode case mapping and
  \<^verbatim>\<open>str.isalpha\<close>, and the manifest file.
\<close>

record country =
  c_cca2 :: "pystr option"
  c_name_common :: "pystr option"
  c_idd_root :: "pystr option"
  c_idd_suffixes :: "pystr list option"
  c_flags_svg :: "pystr option"

record world =
  api_data :: "country list option"
  resource_prefix :: pystr
  urlretrieve_ok :: "nat \<Rightarrow> pystr \<Rightarrow> pystr \<Rightarrow> bool"
  str_upper :: "pystr \<Rightarrow> pystr"
  str_lower :: "pystr \<Rightarrow> pystr"
  str_isalpha :: "pystr \<Rightarrow> bool"
  xml_file :: "pystr list option"

record item =
  item_name :: pystr
  item_code :: pystr
  item_dial_code :: pystr
  item_emoji :: pystr
  item_flag_path :: pystr

definition endswith :: "pystr \<Rightarrow> pystr \<Rightarrow> bool" where
  "endswith s p = startswith (rev s) (rev p)"

text \<open>\<^verbatim>\<open>d.get(key, default)\<close> on a field that may be absent.\<close>

definition get_default :: "'a option \<Rightarrow> 'a \<Rightarrow> 'a" where
  "get_default field d = (case field of None \<Rightarrow> d | Some v \<Rightarrow> v)"

text \<open>\<^verbatim>\<open>download_svg\<close>, lines 55 to 71, for the \<open>i\<close>-th record of the sorted data.\<close>

definition download_svg :: "world \<Rightarrow> nat \<Rightarrow> pystr \<Rightarrow> pystr \<Rightarrow> pystr option" where
  "download_svg w i url cca2 =
     (if url = [] \<or> \<not> endswith url (py ''.svg'') then None
      else let filename = str_lower w cca2 @ py ''.svg''
           in if urlretrieve_ok w i url filename then Some filename else None)"

text \<open>
  \<^verbatim>\<open>get_flag_emoji\<close>, lines 73 to 80. \<^verbatim>\<open>chr\<close> raises above U+10FFFF and an index
  out of range raises too; the bare \<^verbatim>\<open>except\<close> turns both into \<^verbatim>\<open>None\<close>.
\<close>

definition OFFSET :: nat where
  "OFFSET = 127397"

definition get_flag_emoji :: "world \<Rightarrow> pystr \<Rightarrow> pystr option" where
  "get_flag_emoji w country_code =
     (if country_code = [] \<or> length country_code \<noteq> 2 then None
      else let code = str_upper w country_code
           in if \<not> str_isalpha w code then None
              else (case code of
                      c0 # c1 # _ \<Rightarrow>
                        if c0 + OFFSET \<le> 1114111 \<and> c1 + OFFSET \<le> 1114111
                        then Some [c0 + OFFSET, c1 + OFFSET] else None
                    | _ \<Rightarrow> None))"

text \<open>
  The loop of lines 159 to 186 of \<^verbatim>\<open>main\<close>; \<open>i\<close> counts the records, and the pair is
  (\<^verbatim>\<open>processed_list\<close>, \<^verbatim>\<open>downloaded_svgs\<close>).
\<close>

fun process_countries ::
    "world \<Rightarrow> nat \<Rightarrow> country list \<Rightarrow> item list \<times> pystr list \<Rightarrow> item list \<times> pystr list" where
  "process_countries w i [] acc = acc"
| "process_countries w i (c # rest) (processed_list, downloaded_svgs) =
     (let cca2 = get_default (c_cca2 c) [];
          name = get_default (c_name_common c) (py ''Unknown'')
      in case format_dial_code (get_default (c_idd_root c) [])
                (get_default (c_idd_suffixes c) []) cca2 of
           None \<Rightarrow> process_countries w (Suc i) rest (processed_list, downloaded_svgs)
         | Some dial_code \<Rightarrow>
             if dial_code = [] then
               process_countries w (Suc i) rest (processed_list, downloaded_svgs)
             else
               let svg_url = get_default (c_flags_svg c) [];
                   filename = download_svg w i svg_url cca2;
                   flag_resource_path =
                     (case filename of
                        None \<Rightarrow> []
                      | Some f \<Rightarrow>
                          py ''resource://'' @ resource_prefix w @ py ''/assets/data/svg/'' @ f);
                   new_item = \<lparr> item_name = name, item_code = cca2, item_dial_code = dial_code,
                               item_emoji = get_default (get_flag_emoji w cca2) [],
                               item_flag_path = flag_resource_path \<rparr>
               in process_countries w (Suc i) rest
                    (processed_list @ [new_item],
                     (case filename of
                        None \<Rightarrow> downloaded_svgs
                      | Some f \<Rightarrow> downloaded_svgs @ [f])))"

text \<open>
  \<^verbatim>\<open>main\<close>, lines 139 to 198: the JSON document written (\<open>None\<close> when none is) and
  the manifest file afterwards. Line 146 returns when the provider gave nothing or an
  empty list; line 157 sorts by display name (a stable sort); line 195 calls the
  synchronization only for a non-empty list of downloaded files. Creating the
  directories and writing the JSON file are taken to succeed.
\<close>

definition sort_countries :: "country list \<Rightarrow> country list" where
  "sort_countries data = sort_key (\<lambda>x. get_default (c_name_common x) []) data"

definition run_countries :: "world \<Rightarrow> country list \<Rightarrow> item list \<times> pystr list" where
  "run_countries w data = process_countries w 0 (sort_countries data) ([], [])"

definition country_main :: "world \<Rightarrow> item list option \<times> pystr list option" where
  "country_main w =
     (case api_data w of
        None \<Rightarrow> (None, xml_file w)
      | Some data \<Rightarrow>
          if data = [] then (None, xml_file w)
          else let (processed_list, downloaded_svgs) = run_countries w data
               in (Some processed_list,
                   if downloaded_svgs \<noteq> []
                   then fst (update_gresource_xml downloaded_svgs (xml_file w))
                   else xml_file w))"

section \<open>String extraction (extract-data-strings.py)\<close>

text \<open>
  A value returned by \<^verbatim>\<open>json.load\<close>. A \<^verbatim>\<open>dict\<close> is the list of its items in
  iteration order; a \<^verbatim>\<open>float\<close> is its 64 bits.
\<close>

datatype json =
    JNull
  | JBool bool
  | JInt int
  | JFloat "64 word"
  | JString pystr
  | JArray "json list"
  | JObject "(pystr \<times> json) list"

definition TRANSLATABLE_KEYS :: "pystr set" where
  "TRANSLATABLE_KEYS = set [py ''name'', py ''description'', py ''keywords'']"

definition SKIP_FILES :: "pystr set" where
  "SKIP_FILES = set [py ''countries.json'', py ''emojisModifier.json'']"

text \<open>\<^verbatim>\<open>escape_string\<close>: \<^verbatim>\<open>str.replace\<close> of a single character, applied twice.\<close>

definition replace_char :: "nat \<Rightarrow> pystr \<Rightarrow> pystr \<Rightarrow> pystr" where
  "replace_char old new s = concat (map (\<lambda>c. if c = old then new else [c]) s)"

definition escape_string :: "pystr \<Rightarrow> pystr" where
  "escape_string s =
     replace_char dquote [backslash, dquote] (replace_char backslash [backslash, backslash] s)"

text \<open>Lines 79 to 81: the strings of a list found under a translatable key.\<close>

fun harvest_list :: "json list \<Rightarrow> pystr set \<Rightarrow> pystr set" where
  "harvest_list [] string_set = string_set"
| "harvest_list (JString s # rest) string_set =
     harvest_list rest (if strip s \<noteq> [] then insert (strip s) string_set else string_set)"
| "harvest_list (_ # rest) string_set = harvest_list rest string_set"

text \<open>Lines 76 to 81: the value of a translatable key.\<close>

fun harvest_value :: "json \<Rightarrow> pystr set \<Rightarrow> pystr set" where
  "harvest_value (JString s) string_set =
     (if strip s \<noteq> [] then insert (strip s) string_set else string_set)"
| "harvest_value (JArray xs) string_set = harvest_list xs string_set"
| "harvest_value _ string_set = string_set"

text \<open>
  \<^verbatim>\<open>extract_strings_recursive\<close>, lines 62 to 87, with its two loops. The set that the
  source mutates is passed along and returned. The source reads the global
  \<^verbatim>\<open>TRANSLATABLE_KEYS\<close>; here the set of keys is the first argument, and the script
  runs with \<open>TRANSLATABLE_KEYS\<close>.
\<close>

fun extract_strings_recursive :: "pystr set \<Rightarrow> json \<Rightarrow> pystr set \<Rightarrow> pystr set"
  and extract_dict_items :: "pystr set \<Rightarrow> (pystr \<times> json) list \<Rightarrow> pystr set \<Rightarrow> pystr set"
  and extract_list_items :: "pystr set \<Rightarrow> json list \<Rightarrow> pystr set \<Rightarrow> pystr set" where
  "extract_strings_recursive keys (JObject kvs) string_set = extract_dict_items keys kvs string_set"
| "extract_strings_recursive keys (JArray xs) string_set = extract_list_items keys xs string_set"
| "extract_strings_recursive keys JNull string_set = string_set"
| "extract_strings_recursive keys (JBool b) string_set = string_set"
| "extract_strings_recursive keys (JInt n) string_set = string_set"
| "extract_strings_recursive keys (JFloat x) string_set = string_set"
| "extract_strings_recursive keys (JString s) string_set = string_set"
| "extract_dict_items keys [] string_set = string_set"
| "extract_dict_items keys ((key, val) # rest) string_set =
     extract_dict_items keys rest
       (if key \<in> keys then harvest_value val string_set
        else extract_strings_recursive keys val string_set)"
| "extract_list_items keys [] string_set = string_set"
| "extract_list_items keys (x # rest) string_set =
     extract_list_items keys rest (extract_strings_recursive keys x string_set)"

text \<open>
  Lines 108 and 109 of \<^verbatim>\<open>process_json_file\<close>: a \<^verbatim>\<open>dict\<close> with a key \<^verbatim>\<open>data\<close> is replaced by
  that key's value.
\<close>

definition unwrap_data :: "json \<Rightarrow> json" where
  "unwrap_data d =
     (case d of
        JObject kvs \<Rightarrow> (case map_of kvs (py ''data'') of Some v \<Rightarrow> v | None \<Rightarrow> d)
      | _ \<Rightarrow> d)"

text \<open>
  \<^verbatim>\<open>process_json_file\<close>, lines 90 to 121. \<open>name\<close> is \<^verbatim>\<open>json_path.name\<close>, and \<open>loaded\<close>
  is what \<^verbatim>\<open>open\<close> and \<^verbatim>\<open>json.load\<close> give: the value, or the exception raised, with its
  text. The two handlers print a line and return the count 0. The result is the count
  returned, the set afterwards and the lines printed.
\<close>

datatype load_failure = JSONDecodeError pystr | OtherException pystr

definition process_json_file ::
    "pystr set \<Rightarrow> pystr \<Rightarrow> load_failure + json \<Rightarrow> pystr set \<Rightarrow> nat \<times> pystr set \<times> pystr list" where
  "process_json_file keys name loaded string_set =
     (case loaded of
        Inl (JSONDecodeError e) \<Rightarrow>
          (0, string_set,
           [py ''  Error: Invalid JSON in '' @ [squote] @ name @ [squote] @ py '': '' @ e])
      | Inl (OtherException e) \<Rightarrow>
          (0, string_set,
           [py ''  Error processing '' @ [squote] @ name @ [squote] @ py '': '' @ e])
      | Inr d \<Rightarrow>
          let string_set' = extract_strings_recursive keys (unwrap_data d) string_set
          in (card string_set' - card string_set, string_set', []))"

text \<open>
  \<^verbatim>\<open>discover_json_files\<close>, lines 124 to 142, on the names of the entries of the input
  directory: the names \<^verbatim>\<open>glob('*.json')\<close> matches, sorted, without those of
  \<^verbatim>\<open>SKIP_FILES\<close>. The second component is what it prints.
\<close>

definition glob_json :: "pystr list \<Rightarrow> pystr list" where
  "glob_json names = filter (\<lambda>n. endswith n (py ''.json'')) names"

fun discover_loop :: "pystr list \<Rightarrow> pystr list \<times> pystr list \<Rightarrow> pystr list \<times> pystr list" where
  "discover_loop [] acc = acc"
| "discover_loop (n # rest) (json_files, out) =
     (if n \<in> SKIP_FILES
      then discover_loop rest (json_files, out @ [py ''  Skipping: '' @ n @ py '' (in skip list)''])
      else discover_loop rest (json_files @ [n], out))"

definition discover_json_files :: "pystr list \<Rightarrow> pystr list \<times> pystr list" where
  "discover_json_files names = discover_loop (sort (glob_json names)) ([], [])"

text \<open>\<^verbatim>\<open>sep.join(xs)\<close>.\<close>

fun join :: "pystr \<Rightarrow> pystr list \<Rightarrow> pystr" where
  "join sep [] = []"
| "join sep [x] = x"
| "join sep (x # y # ys) = x @ sep @ join sep (y # ys)"

text \<open>
  \<^verbatim>\<open>POT_HEADER_TEMPLATE.format(creation_date=creation_date)\<close>. The template is a raw
  string, so each \<^verbatim>\<open>\n\<close> inside a quoted field is a backslash and the letter n.
\<close>

definition hdr_comment :: "string \<Rightarrow> pystr" where
  "hdr_comment cs = py cs @ [newline]"

definition hdr_field :: "pystr \<Rightarrow> pystr" where
  "hdr_field s = [dquote] @ s @ [backslash] @ py ''n'' @ [dquote, newline]"

definition pot_header :: "pystr \<Rightarrow> pystr" where
  "pot_header creation_date =
     hdr_comment ''# Translation template for All-in-One Clipboard data content.'' @
     hdr_comment ''# Copyright (C) 2025 NiffirgkcaJ'' @
     hdr_comment
       ''# This file is distributed under the same license as the All-in-One Clipboard package.'' @
     hdr_comment ''#'' @
     hdr_comment ''#, fuzzy'' @
     py ''msgid '' @ [dquote, dquote, newline] @
     py ''msgstr '' @ [dquote, dquote, newline] @
     hdr_field (py ''Project-Id-Version: all-in-one-clipboard'') @
     hdr_field (py ''Report-Msgid-Bugs-To: '') @
     hdr_field (py ''POT-Creation-Date: '' @ creation_date) @
     hdr_field (py ''PO-Revision-Date: YEAR-MO-DA HO:MI+ZONE'') @
     hdr_field (py ''Last-Translator: FULL NAME <EMAIL@ADDRESS>'') @
     hdr_field (py ''Language-Team: LANGUAGE <LL@li.org>'') @
     hdr_field (py ''Language: '') @
     hdr_field (py ''MIME-Version: 1.0'') @
     hdr_field (py ''Content-Type: text/plain; charset=UTF-8'') @
     hdr_field (py ''Content-Transfer-Encoding: 8bit'') @
     [newline]"

text \<open>
  \<^verbatim>\<open>f.write(data)\<close> on the file opened with \<^verbatim>\<open>encoding='utf-8'\<close>: the text of the file
  grows by \<open>data\<close>, or the codec raises and nothing of \<open>data\<close> is written.
\<close>

definition f_write :: "pystr \<Rightarrow> pystr \<Rightarrow> py_error + pystr" where
  "f_write f data = (if utf8_encodable data then Inr (f @ data) else Inl UnicodeEncodeError)"

text \<open>
  The loop of lines 166 to 169, with its three writes for one string: the text of the
  file afterwards, and the exception if one of the writes raised.
\<close>

fun write_blocks :: "pystr \<Rightarrow> pystr list \<Rightarrow> pystr \<Rightarrow> pystr \<times> py_error option" where
  "write_blocks source_comment [] f = (f, None)"
| "write_blocks source_comment (s # rest) f =
     (case f_write f (py ''#: '' @ source_comment @ [newline]) of
        Inl e \<Rightarrow> (f, Some e)
      | Inr f1 \<Rightarrow>
          (case f_write f1 (py ''msgid '' @ [dquote] @ escape_string s @ [dquote, newline]) of
             Inl e \<Rightarrow> (f1, Some e)
           | Inr f2 \<Rightarrow>
               (case f_write f2 (py ''msgstr '' @ [dquote, dquote, newline, newline]) of
                  Inl e \<Rightarrow> (f2, Some e)
                | Inr f3 \<Rightarrow> write_blocks source_comment rest f3)))"

text \<open>
  \<^verbatim>\<open>generate_pot_file\<close>, lines 145 to 171: the text left in the output file, and the
  count returned or the exception that a write raised. \<open>creation_date\<close> is the
  formatted clock reading of line 161, and \<open>source_files\<close> are the names of the source
  files. \<^verbatim>\<open>sorted\<close> of a set is \<open>sorted_list_of_set\<close>. Opening the output file is taken
  to succeed.
\<close>

definition generate_pot_file ::
    "pystr \<Rightarrow> pystr set \<Rightarrow> pystr list \<Rightarrow> pystr \<times> (py_error + nat)" where
  "generate_pot_file creation_date strings source_files =
     (let sorted_strings = sorted_list_of_set (strings - {[]});
          source_comment = join (py '', '') source_files
      in case f_write [] (pot_header creation_date) of
           Inl e \<Rightarrow> ([], Inl e)
         | Inr f \<Rightarrow>
             (case write_blocks source_comment sorted_strings f of
                (f', Some e) \<Rightarrow> (f', Inl e)
              | (f', None) \<Rightarrow> (f', Inr (length sorted_strings))))"

text \<open>Decimal digits of a number, as an f-string prints it.\<close>

fun str_nat :: "nat \<Rightarrow> pystr" where
  "str_nat n = (if n < 10 then [48 + n] else str_nat (n div 10) @ [48 + n mod 10])"

text \<open>
  What the generator's \<^verbatim>\<open>main\<close> takes from outside: the file system seen through
  \<^verbatim>\<open>pathlib\<close> (\<^verbatim>\<open>str\<close> of a path, \<^verbatim>\<open>exists\<close>, \<^verbatim>\<open>is_dir\<close>, the names of the entries of a
  directory, and what \<^verbatim>\<open>open\<close> with \<^verbatim>\<open>json.load\<close> gives for an entry), and the clock.
\<close>

record filesys =
  path_str :: "pystr \<Rightarrow> pystr"
  path_exists :: "pystr \<Rightarrow> bool"
  path_is_dir :: "pystr \<Rightarrow> bool"
  dir_entries :: "pystr \<Rightarrow> pystr list"
  load_json :: "pystr \<Rightarrow> pystr \<Rightarrow> load_failure + json"
  clock :: pystr

text \<open>
  A run of \<^verbatim>\<open>main\<close>: the exit code, the lines printed, the JSON files opened for
  extraction, and the template written (path and text) if any.
\<close>

record run =
  exit_code :: nat
  stdout :: "pystr list"
  opened :: "pystr list"
  written :: "(pystr \<times> pystr) option"

text \<open>The loop of lines 211 to 213: (\<^verbatim>\<open>all_strings\<close>, lines printed, files opened).\<close>

fun process_files ::
    "filesys \<Rightarrow> pystr \<Rightarrow> pystr list \<Rightarrow> pystr set \<times> pystr list \<times> pystr list \<Rightarrow>
     pystr set \<times> pystr list \<times> pystr list" where
  "process_files fs input_dir [] acc = acc"
| "process_files fs input_dir (n # rest) (all_strings, out, ops) =
     (let (count, all_strings', errors) =
            process_json_file TRANSLATABLE_KEYS n (load_json fs input_dir n) all_strings
      in process_files fs input_dir rest
           (all_strings',
            out @ errors @ [py ''  '' @ n @ py '': '' @ str_nat count @ py '' new strings''],
            ops @ [n]))"

text \<open>
  \<^verbatim>\<open>main\<close>, lines 176 to 221. \<open>argv\<close> is \<^verbatim>\<open>sys.argv\<close>, the script's name first.
  \<^verbatim>\<open>sys.exit(n)\<close> ends the run with exit code \<open>n\<close>; returning from \<^verbatim>\<open>main\<close> ends it
  with 0; an exception that \<^verbatim>\<open>generate_pot_file\<close> raises is not caught and ends it with
  1, the last message unprinted. Printing and creating the output directory are taken
  to succeed.
\<close>

definition usage_lines :: "pystr list" where
  "usage_lines =
     [py ''Usage: python extract-data-strings.py <output_file.pot> <input_dir>'',
      py ''Example: python extract-data-strings.py gnome-extensions/translation/data-content.pot gnome-extensions/extension/assets/data/json'']"

definition extract_main :: "filesys \<Rightarrow> pystr list \<Rightarrow> run" where
  "extract_main fs argv =
     (if length argv \<noteq> 3 then
        \<lparr> exit_code = 1, stdout = usage_lines, opened = [], written = None \<rparr>
      else
        let output_file = argv ! 1; input_dir = argv ! 2 in
        if \<not> path_exists fs input_dir then
          \<lparr> exit_code = 1,
            stdout = [py ''Error: Input directory '' @ [squote] @ path_str fs input_dir @
                      [squote] @ py '' does not exist.''],
            opened = [], written = None \<rparr>
        else if \<not> path_is_dir fs input_dir then
          \<lparr> exit_code = 1,
            stdout = [py ''Error: '' @ [squote] @ path_str fs input_dir @ [squote] @
                      py '' is not a directory.''],
            opened = [], written = None \<rparr>
        else
          let out0 = [py ''Scanning directory: '' @ path_str fs input_dir, []];
              (json_files, skipped) = discover_json_files (dir_entries fs input_dir);
              out1 = out0 @ skipped
          in if json_files = [] then
               \<lparr> exit_code = 0, stdout = out1 @ [py ''No JSON files found to process.''],
                 opened = [], written = None \<rparr>
             else
               let out2 = out1 @
                     [py ''Found '' @ str_nat (length json_files) @ py '' JSON file(s) to process:''] @
                     map (\<lambda>n. py ''  - '' @ n) json_files @ [[]];
                   (all_strings, out3, ops) =
                     process_files fs input_dir json_files ({}, out2, []);
                   (text, result) = generate_pot_file (clock fs) all_strings json_files
               in case result of
                    Inl e \<Rightarrow>
                      \<lparr> exit_code = 1, stdout = out3 @ [[]],
                        opened = ops, written = Some (output_file, text) \<rparr>
                  | Inr total' \<Rightarrow>
                      \<lparr> exit_code = 0,
                        stdout = out3 @ [[],
                          py ''Generated '' @ [squote] @ path_str fs output_file @ [squote] @
                          py '' with '' @ str_nat total' @ py '' unique translatable strings.''],
                        opened = ops, written = Some (output_file, text) \<rparr>)"

section \<open>The specification's notions\<close>

text \<open>
  The lines one manifest line contributes to the rewritten manifest: nothing for a
  generated-asset declaration, the new declarations and the line itself for a closing
  line, the line itself otherwise.
\<close>

definition emit :: "pystr list \<Rightarrow> pystr \<Rightarrow> pystr list" where
  "emit svg_files line =
     (if is_flag_line line then []
      else if is_closing_line line then
        map (file_line (file_indent line)) (sort svg_files) @ [line]
      else [line])"

text \<open>
  The strings the specification of the extractor calls reachable: (a) the string that
  is the value of a translatable key, (b) a string element of a list that is the value
  of a translatable key; the value of any other key is searched, and so is every element
  of a list. The extractor yields them trimmed, the empty ones left out.
\<close>

inductive translatable :: "pystr set \<Rightarrow> json \<Rightarrow> pystr \<Rightarrow> bool" for keys :: "pystr set" where
  direct: "(k, JString s) \<in> set kvs \<Longrightarrow> k \<in> keys \<Longrightarrow> translatable keys (JObject kvs) s"
| element: "(k, JArray xs) \<in> set kvs \<Longrightarrow> k \<in> keys \<Longrightarrow> JString s \<in> set xs \<Longrightarrow>
            translatable keys (JObject kvs) s"
| in_value: "(k, v) \<in> set kvs \<Longrightarrow> k \<notin> keys \<Longrightarrow> translatable keys v s \<Longrightarrow>
             translatable keys (JObject kvs) s"
| in_list: "v \<in> set xs \<Longrightarrow> translatable keys v s \<Longrightarrow> translatable keys (JArray xs) s"

definition spec_strings :: "pystr set \<Rightarrow> json \<Rightarrow> pystr set" where
  "spec_strings keys obj = {strip s | s. translatable keys obj s \<and> strip s \<noteq> []}"

text \<open>Escaping as the specification words it: one character at a time.\<close>

definition escape_char :: "nat \<Rightarrow> pystr" where
  "escape_char c = (if c = backslash \<or> c = dquote then [backslash, c] else [c])"

text \<open>
  One message block as the specification describes it: the provenance comment with all
  source file names joined by commas, the escaped message identifier, the empty
  translation.
\<close>

definition spec_block :: "pystr list \<Rightarrow> pystr \<Rightarrow> pystr" where
  "spec_block source_files s =
     py ''#: '' @ join (py '', '') source_files @ [newline] @
     py ''msgid '' @ [dquote] @ concat (map escape_char s) @ [dquote, newline] @
     py ''msgstr '' @ [dquote, dquote, newline, newline]"

text \<open>The record kept for a country, and the countries that are kept.\<close>

definition has_root :: "country \<Rightarrow> bool" where
  "has_root c \<longleftrightarrow> get_default (c_idd_root c) [] \<noteq> []"

definition item_of :: "country \<Rightarrow> item \<Rightarrow> bool" where
  "item_of c it \<longleftrightarrow>
     item_code it = get_default (c_cca2 c) [] \<and>
     item_name it = get_default (c_name_common c) (py ''Unknown'') \<and>
     format_dial_code (get_default (c_idd_root c) []) (get_default (c_idd_suffixes c) [])
       (get_default (c_cca2 c) []) = Some (item_dial_code it)"

section \<open>Examples\<close>

definition ln :: "string \<Rightarrow> pystr" where
  "ln cs = py cs @ [newline]"

definition example_manifest :: "pystr list" where
  "example_manifest =
     [ln ''<gresources>'',
      ln ''  <gresource>'',
      ln ''    <file>assets/data/icons/logo.png</file>'',
      ln ''    <file>assets/data/svg/us.svg</file>'',
      ln ''  </gresource>'',
      ln ''</gresources>'']"

definition example_synced :: "pystr list" where
  "example_synced =
     [ln ''<gresources>'',
      ln ''  <gresource>'',
      ln ''    <file>assets/data/icons/logo.png</file>'',
      ln ''      <file>assets/data/svg/de.svg</file>'',
      ln ''      <file>assets/data/svg/fr.svg</file>'',
      ln ''  </gresource>'',
      ln ''</gresources>'']"

definition example_world :: world where
  "example_world =
     \<lparr> api_data = Some
         [\<lparr> c_cca2 = Some (py ''US''), c_name_common = Some (py ''United States''),
            c_idd_root = Some (py ''+1''), c_idd_suffixes = Some [py ''201''],
            c_flags_svg = None \<rparr>,
          \<lparr> c_cca2 = Some (py ''AQ''), c_name_common = Some (py ''Antarctica''),
            c_idd_root = None, c_idd_suffixes = None,
            c_flags_svg = Some (py ''https://flagcdn.com/aq.svg'') \<rparr>],
       resource_prefix = py ''/org/gnome/shell/extensions/all-in-one-clipboard'',
       urlretrieve_ok = (\<lambda>i url filename. False),
       str_upper = (\<lambda>s. s),
       str_lower = (\<lambda>s. s),
       str_isalpha = (\<lambda>s. True),
       xml_file = Some example_manifest \<rparr>"

definition example_json :: json where
  "example_json =
     JObject [(py ''name'', JString (py ''Coffee'')),
              (py ''keywords'', JArray [JString (py ''drink''), JString (py ''hot'')]),
              (py ''id'', JInt 42)]"

definition example_bare :: json where
  "example_bare = JArray [JObject [(py ''name'', JString (py ''X''))]]"

definition example_wrapped :: json where
  "example_wrapped = JObject [(py ''data'', example_bare)]"

definition example_nested :: json where
  "example_nested = JObject [(py ''data'', JArray []), (py ''name'', JString (py ''Y''))]"

definition example_fs :: filesys where
  "example_fs =
     \<lparr> path_str = (\<lambda>p. p),
       path_exists = (\<lambda>p. p = py ''data'' \<or> p = py ''notes.txt''),
       path_is_dir = (\<lambda>p. p = py ''data''),
       dir_entries = (\<lambda>p. if p = py ''data'' then [py ''readme.md'', py ''countries.json''] else []),
       load_json = (\<lambda>d n. Inl (OtherException [])),
       clock = py ''2025-01-01 00:00+0000'' \<rparr>"

section \<open>Properties of the manifest synchronization\<close>

lemma startswith_append: "startswith (p @ s) p"
  by (induction p) auto

lemma startswith_iff: "startswith s p \<longleftrightarrow> (\<exists>t. s = p @ t)"
  by (induction s p rule: startswith.induct) auto

lemma str_in_iff: "str_in sub s \<longleftrightarrow> (\<exists>a b. s = a @ sub @ b)"
proof (induction s)
  case Nil
  then show ?case by auto
next
  case (Cons c cs)
  show ?case
  proof
    assume "str_in sub (c # cs)"
    then consider "startswith (c # cs) sub" | "str_in sub cs" by auto
    then show "\<exists>a b. c # cs = a @ sub @ b"
    proof cases
      case 1
      then obtain t where "c # cs = sub @ t" by (auto simp: startswith_iff)
      then have "c # cs = [] @ sub @ t" by simp
      then show ?thesis by blast
    next
      case 2
      then obtain a b where "cs = a @ sub @ b" using Cons.IH by blast
      then have "c # cs = (c # a) @ sub @ b" by simp
      then show ?thesis by blast
    qed
  next
    assume "\<exists>a b. c # cs = a @ sub @ b"
    then obtain a b where ab: "c # cs = a @ sub @ b" by blast
    show "str_in sub (c # cs)"
    proof (cases a)
      case Nil
      then have "c # cs = sub @ b" using ab by simp
      then have "startswith (c # cs) sub" by (auto simp: startswith_iff)
      then show ?thesis by simp
    next
      case (Cons x a')
      then have "cs = a' @ sub @ b" using ab by simp
      then have "str_in sub cs" using Cons.IH by blast
      then show ?thesis by simp
    qed
  qed
qed

lemma str_in_middle: "str_in sub (a @ sub @ b)"
  by (auto simp: str_in_iff)

lemma file_line_is_flag_line: "is_flag_line (file_line indent filename)"
proof -
  have "file_line indent filename =
      (indent @ py ''<file>'') @ svg_rel_path @ (filename @ py ''</file>'' @ [newline])"
    by (simp add: file_line_def)
  then have a: "str_in svg_rel_path (file_line indent filename)"
    by (metis str_in_middle)
  have "file_line indent filename =
      indent @ py ''<file>'' @ (svg_rel_path @ filename @ py ''</file>'' @ [newline])"
    by (simp add: file_line_def)
  then have b: "str_in (py ''<file>'') (file_line indent filename)"
    by (metis str_in_middle)
  from a b show ?thesis by (simp add: is_flag_line_def)
qed

lemma closing_tag_indent_takeWhile: "closing_tag_indent line = takeWhile isspace line"
proof -
  have "length line - length (dropWhile isspace line) = length (takeWhile isspace line)"
    by (metis add_diff_cancel_right' length_append takeWhile_dropWhile_id)
  then show ?thesis
    by (simp add: closing_tag_indent_def lstrip_def takeWhile_eq_take [symmetric])
qed

lemma update_lines_emit: "update_lines fs lines acc = acc @ concat (map (emit fs) lines)"
  by (induction lines arbitrary: acc) (auto simp: emit_def)

lemma emit_opaque: "filter (\<lambda>l. \<not> is_flag_line l) (emit fs line) = (if is_flag_line line then [] else [line])"
  by (auto simp: emit_def filter_empty_conv file_line_is_flag_line)

lemma emit_flag: "filter is_flag_line (emit fs line) =
   (if \<not> is_flag_line line \<and> is_closing_line line then map (file_line (file_indent line)) (sort fs) else [])"
  by (auto simp: emit_def filter_id_conv file_line_is_flag_line)

lemma emit_emit: "concat (map (emit fs) (emit fs' line)) = emit fs line"
proof -
  have "concat (map (emit fs) (map (file_line ind) xs)) = []" for ind xs
    by (induction xs) (auto simp: emit_def file_line_is_flag_line)
  then show ?thesis by (auto simp: emit_def)
qed

lemma update_update: "update_lines fs (update_lines fs' lines []) [] = update_lines fs lines []"
proof -
  have "concat (map (emit fs) (concat (map (emit fs') lines))) = concat (map (emit fs) lines)"
    by (induction lines) (auto simp: emit_emit)
  then show ?thesis by (simp add: update_lines_emit)
qed

lemma opaque_kept: "filter (\<lambda>l. \<not> is_flag_line l) (update_lines fs lines []) = filter (\<lambda>l. \<not> is_flag_line l) lines"
  by (induction lines) (auto simp: update_lines_emit emit_opaque)

lemmas manifest_eval = example_manifest_def example_synced_def ln_def py_def newline_def
  is_flag_line_def is_closing_line_def svg_rel_path_def file_line_def file_indent_def
  closing_tag_indent_def lstrip_def isspace_def

lemma emit_skip_flag_lines:
  "concat (map (emit fs) (filter (\<lambda>l. \<not> is_flag_line l) lines)) = concat (map (emit fs) lines)"
  by (induction lines) (auto simp: emit_def)

lemma emit_plain_lines:
  "\<forall>l\<in>set xs. \<not> is_flag_line l \<and> \<not> is_closing_line l \<Longrightarrow> concat (map (emit fs) xs) = xs"
  by (induction xs) (auto simp: emit_def)

lemma file_line_inj: "file_line indent f = file_line indent g \<Longrightarrow> f = g"
  by (simp add: file_line_def)

lemma distinct_file_lines: "distinct fs \<Longrightarrow> distinct (map (file_line indent) fs)"
  by (simp add: distinct_map inj_on_def file_line_def)

lemma file_indent_eq: "file_indent c = takeWhile isspace c @ py ''    ''"
  by (simp add: file_indent_def closing_tag_indent_takeWhile)

text \<open>
  Claim C1, as amended. For every sequence of manifest lines (the lines as read from
  the file) and every list of file names, the lines that are not generated-asset
  declarations are kept as they are, in order. When exactly one of them contains the
  closing token, and the file names are distinct, the rewritten manifest is the old one
  without its generated-asset declarations and with one declaration per file name, in
  sorted order, immediately before the closing line, each indented by the closing line's
  leading whitespace and four spaces; its declarations are exactly these, without
  duplicates. The manifest of the specification's example, synchronized with fr.svg and
  de.svg, keeps the logo.png line, loses the us.svg line and gains the lines for de.svg
  and fr.svg before the closing line.
\<close>

theorem sync_single_section:
  "filter (\<lambda>l. \<not> is_flag_line l) (update_lines svg_files lines []) =
     filter (\<lambda>l. \<not> is_flag_line l) lines
   \<and> (filter (\<lambda>l. \<not> is_flag_line l) lines = pre @ c # post \<and> is_closing_line c \<and>
      (\<forall>l\<in>set pre \<union> set post. \<not> is_closing_line l) \<and> distinct svg_files \<longrightarrow>
        update_lines svg_files lines [] =
          pre @ map (file_line (takeWhile isspace c @ py ''    '')) (sort svg_files) @ c # post
        \<and> filter is_flag_line (update_lines svg_files lines []) =
          map (file_line (takeWhile isspace c @ py ''    '')) (sort svg_files)
        \<and> distinct (filter is_flag_line (update_lines svg_files lines [])))
   \<and> update_lines [py ''fr.svg'', py ''de.svg''] example_manifest [] = example_synced"
proof (intro conjI impI)
  show "filter (\<lambda>l. \<not> is_flag_line l) (update_lines svg_files lines []) =
     filter (\<lambda>l. \<not> is_flag_line l) lines"
    by (rule opaque_kept)
  show "update_lines [py ''fr.svg'', py ''de.svg''] example_manifest [] = example_synced"
    by (simp add: manifest_eval)
next
  let ?new = "map (file_line (takeWhile isspace c @ py ''    '')) (sort svg_files)"
  assume h: "filter (\<lambda>l. \<not> is_flag_line l) lines = pre @ c # post \<and> is_closing_line c \<and>
      (\<forall>l\<in>set pre \<union> set post. \<not> is_closing_line l) \<and> distinct svg_files"
  then have opaque: "filter (\<lambda>l. \<not> is_flag_line l) lines = pre @ c # post"
    and closing: "is_closing_line c"
    and others: "\<forall>l\<in>set pre \<union> set post. \<not> is_closing_line l"
    and dist: "distinct svg_files"
    by simp_all
  have "\<forall>l\<in>set (filter (\<lambda>l. \<not> is_flag_line l) lines). \<not> is_flag_line l"
    by simp
  then have nf: "\<forall>l\<in>set (pre @ c # post). \<not> is_flag_line l"
    unfolding opaque .
  have pre: "concat (map (emit svg_files) pre) = pre"
    using nf others by (intro emit_plain_lines) auto
  have post: "concat (map (emit svg_files) post) = post"
    using nf others by (intro emit_plain_lines) auto
  have c: "emit svg_files c = ?new @ [c]"
    using nf closing by (simp add: emit_def file_indent_eq)
  have "update_lines svg_files lines [] = concat (map (emit svg_files) (pre @ c # post))"
    using opaque emit_skip_flag_lines [of svg_files lines] by (simp add: update_lines_emit)
  then show out: "update_lines svg_files lines [] = pre @ ?new @ c # post"
    using pre post c by simp
  have "filter is_flag_line (pre @ ?new @ c # post) = ?new"
    using nf by (auto simp: filter_empty_conv filter_id_conv file_line_is_flag_line)
  then show decls: "filter is_flag_line (update_lines svg_files lines []) = ?new"
    using out by simp
  have "distinct ?new"
    using dist by (intro distinct_file_lines) simp
  then show "distinct (filter is_flag_line (update_lines svg_files lines []))"
    using decls by simp
qed

text \<open>
  The hypotheses of C1 hold on the example manifest, and the theorem gives its result.
\<close>

theorem sync_single_section_witness:
  "filter (\<lambda>l. \<not> is_flag_line l) example_manifest =
     [ln ''<gresources>'', ln ''  <gresource>'', ln ''    <file>assets/data/icons/logo.png</file>'']
     @ ln ''  </gresource>'' # [ln ''</gresources>'']
   \<and> is_closing_line (ln ''  </gresource>'')
   \<and> distinct [py ''fr.svg'', py ''de.svg'']
   \<and> update_lines [py ''fr.svg'', py ''de.svg''] example_manifest [] =
       [ln ''<gresources>'', ln ''  <gresource>'', ln ''    <file>assets/data/icons/logo.png</file>'',
        file_line (py ''      '') (py ''de.svg''), file_line (py ''      '') (py ''fr.svg''),
        ln ''  </gresource>'', ln ''</gresources>'']
   \<and> filter (\<lambda>l. \<not> is_flag_line l) (update_lines [py ''fr.svg'', py ''de.svg''] example_manifest []) =
       filter (\<lambda>l. \<not> is_flag_line l) example_manifest"
proof -
  let ?pre = "[ln ''<gresources>'', ln ''  <gresource>'',
               ln ''    <file>assets/data/icons/logo.png</file>'']"
  let ?fs = "[py ''fr.svg'', py ''de.svg'']"
  have h1: "filter (\<lambda>l. \<not> is_flag_line l) example_manifest =
              ?pre @ ln ''  </gresource>'' # [ln ''</gresources>'']"
    by (simp add: manifest_eval)
  have h2: "is_closing_line (ln ''  </gresource>'')"
    by (simp add: manifest_eval)
  have h3: "\<forall>l\<in>set ?pre \<union> set [ln ''</gresources>'']. \<not> is_closing_line l"
    by (simp add: manifest_eval)
  have h4: "distinct ?fs"
    by (simp add: py_def)
  have s: "sort ?fs = [py ''de.svg'', py ''fr.svg'']"
    by (simp add: py_def)
  have i: "takeWhile isspace (ln ''  </gresource>'') @ py ''    '' = py ''      ''"
    by (simp add: manifest_eval)
  note t = sync_single_section [of ?fs example_manifest ?pre "ln ''  </gresource>''"
      "[ln ''</gresources>'']"]
  have k: "filter (\<lambda>l. \<not> is_flag_line l) (update_lines ?fs example_manifest []) =
       filter (\<lambda>l. \<not> is_flag_line l) example_manifest"
    using t by (rule conjunct1)
  have imp: "filter (\<lambda>l. \<not> is_flag_line l) example_manifest =
        ?pre @ ln ''  </gresource>'' # [ln ''</gresources>''] \<and>
      is_closing_line (ln ''  </gresource>'') \<and>
      (\<forall>l\<in>set ?pre \<union> set [ln ''</gresources>'']. \<not> is_closing_line l) \<and> distinct ?fs \<longrightarrow>
        update_lines ?fs example_manifest [] =
          ?pre @ map (file_line (takeWhile isspace (ln ''  </gresource>'') @ py ''    ''))
            (sort ?fs) @ ln ''  </gresource>'' # [ln ''</gresources>'']
        \<and> filter is_flag_line (update_lines ?fs example_manifest []) =
          map (file_line (takeWhile isspace (ln ''  </gresource>'') @ py ''    '')) (sort ?fs)
        \<and> distinct (filter is_flag_line (update_lines ?fs example_manifest []))"
    using t by (elim conjE)
  have hyp: "filter (\<lambda>l. \<not> is_flag_line l) example_manifest =
        ?pre @ ln ''  </gresource>'' # [ln ''</gresources>''] \<and>
      is_closing_line (ln ''  </gresource>'') \<and>
      (\<forall>l\<in>set ?pre \<union> set [ln ''</gresources>'']. \<not> is_closing_line l) \<and> distinct ?fs"
    by (intro conjI) (rule h1, rule h2, rule h3, rule h4)
  have "update_lines ?fs example_manifest [] =
          ?pre @ map (file_line (takeWhile isspace (ln ''  </gresource>'') @ py ''    ''))
            (sort ?fs) @ ln ''  </gresource>'' # [ln ''</gresources>'']"
    using mp [OF imp hyp] by (rule conjunct1)
  then have r: "update_lines ?fs example_manifest [] =
       [ln ''<gresources>'', ln ''  <gresource>'', ln ''    <file>assets/data/icons/logo.png</file>'',
        file_line (py ''      '') (py ''de.svg''), file_line (py ''      '') (py ''fr.svg''),
        ln ''  </gresource>'', ln ''</gresources>'']"
    by (simp only: s i list.map append.simps)
  show ?thesis
    by (intro conjI) (rule h1, rule h2, rule h4, rule r, rule k)
qed

text \<open>
  Claim C1 as stated fails: a manifest with no closing line gets no declaration for
  fr.svg, and a manifest with two closing lines declares fr.svg twice.
\<close>

theorem sync_counterexample:
  "filter is_flag_line (update_lines [py ''fr.svg''] [ln ''<gresources>'', ln ''</gresources>''] []) = []
   \<and> \<not> distinct (filter is_flag_line
          (update_lines [py ''fr.svg'']
             [ln ''  <gresource>'', ln ''  </gresource>'', ln ''  <gresource>'', ln ''  </gresource>''] []))"
  by (simp add: manifest_eval)

text \<open>
  Claim C2. Synchronizing the result of a synchronization again with the same file names
  gives the same lines, for every manifest and every list of file names; and so for the
  manifest file, also when it does not exist.
\<close>

theorem sync_idempotent:
  "update_lines svg_files (update_lines svg_files lines []) [] = update_lines svg_files lines []
   \<and> (case update_gresource_xml svg_files xml of
        (xml', out) \<Rightarrow> fst (update_gresource_xml svg_files xml') = xml')"
  by (simp add: update_update update_gresource_xml_def split: option.splits)

text \<open>
  Claim C10. On a manifest none of whose lines contains the closing token,
  synchronization removes the lines that contain both the asset subdirectory path and the
  file token and adds nothing: the result holds no generated-asset declaration, none for
  any of the given file names, and the messages printed are the two of a successful
  update.
\<close>

theorem sync_without_closing_line:
  assumes "\<forall>line\<in>set lines. \<not> is_closing_line line"
  shows "update_gresource_xml svg_files (Some lines) =
           (Some (filter (\<lambda>l. \<not> is_flag_line l) lines),
            [py ''Updating GResource XML...'', py ''XML updated successfully.''])
       \<and> (\<forall>l\<in>set (update_lines svg_files lines []). \<not> is_flag_line l)
       \<and> (\<forall>indent. \<forall>f\<in>set svg_files. file_line indent f \<notin> set (update_lines svg_files lines []))"
proof -
  have "concat (map (emit svg_files) lines) = filter (\<lambda>l. \<not> is_flag_line l) lines"
    using assms by (induction lines) (auto simp: emit_def)
  then have out: "update_lines svg_files lines [] = filter (\<lambda>l. \<not> is_flag_line l) lines"
    by (simp add: update_lines_emit)
  then have "\<forall>l\<in>set (update_lines svg_files lines []). \<not> is_flag_line l"
    by simp
  then have noflag: "\<And>l. l \<in> set (update_lines svg_files lines []) \<Longrightarrow> \<not> is_flag_line l"
    by simp
  have nonew: "file_line indent f \<notin> set (update_lines svg_files lines [])" for indent f
    using noflag [of "file_line indent f"] file_line_is_flag_line [of indent f] by auto
  show ?thesis
    using out noflag nonew by (simp add: update_gresource_xml_def)
qed

text \<open>C10 on a manifest with a stale declaration and no closing line.\<close>

theorem sync_without_closing_line_witness:
  "\<not> is_closing_line (ln ''<gresources>'')
   \<and> \<not> is_closing_line (ln ''    <file>assets/data/svg/us.svg</file>'')
   \<and> \<not> is_closing_line (ln ''</gresources>'')
   \<and> update_gresource_xml [py ''fr.svg'']
       (Some [ln ''<gresources>'', ln ''    <file>assets/data/svg/us.svg</file>'', ln ''</gresources>'']) =
       (Some [ln ''<gresources>'', ln ''</gresources>''],
        [py ''Updating GResource XML...'', py ''XML updated successfully.''])"
proof -
  let ?m = "[ln ''<gresources>'', ln ''    <file>assets/data/svg/us.svg</file>'', ln ''</gresources>'']"
  have h: "\<forall>line\<in>set ?m. \<not> is_closing_line line"
    by (simp add: manifest_eval)
  have f: "filter (\<lambda>l. \<not> is_flag_line l) ?m = [ln ''<gresources>'', ln ''</gresources>'']"
    by (simp add: manifest_eval)
  from sync_without_closing_line [OF h, of "[py ''fr.svg'']"]
  have "update_gresource_xml [py ''fr.svg''] (Some ?m) =
          (Some (filter (\<lambda>l. \<not> is_flag_line l) ?m),
           [py ''Updating GResource XML...'', py ''XML updated successfully.''])"
    by (rule conjunct1)
  then have r: "update_gresource_xml [py ''fr.svg''] (Some ?m) =
          (Some [ln ''<gresources>'', ln ''</gresources>''],
           [py ''Updating GResource XML...'', py ''XML updated successfully.''])"
    by (simp only: f)
  have h1: "\<not> is_closing_line (ln ''<gresources>'')"
    and h2: "\<not> is_closing_line (ln ''    <file>assets/data/svg/us.svg</file>'')"
    and h3: "\<not> is_closing_line (ln ''</gresources>'')"
    using h by simp_all
  show ?thesis
    by (intro conjI) (rule h1, rule h2, rule h3, rule r)
qed

section \<open>Properties of the country pipeline\<close>

lemma py_nonempty: "py (c # cs) \<noteq> []"
  by (simp add: py_def)

lemma format_dial_code_None: "format_dial_code root suffixes cca2 = None \<longleftrightarrow> root = []"
  by (simp add: format_dial_code_def)

lemma format_dial_code_nonempty:
  assumes "format_dial_code root suffixes cca2 = Some d"
  shows "d \<noteq> []"
proof -
  have "root \<noteq> []"
    using assms format_dial_code_None [of root suffixes cca2] by auto
  moreover have "py ''+1'' \<noteq> []" and "py ''+7'' \<noteq> []"
    by (simp_all add: py_def)
  ultimately show ?thesis
    using assms by (auto simp: format_dial_code_def split: if_splits)
qed

lemma process_countries_acc:
  "\<exists>P' D'. process_countries w i cs (P, D) = (P @ P', D @ D')
     \<and> list_all2 (\<lambda>it c. item_of c it) P' (filter has_root cs)
     \<and> (\<forall>it\<in>set P'. item_dial_code it \<noteq> [])"
proof (induction cs arbitrary: i P D)
  case Nil
  then show ?case by simp
next
  case (Cons c cs)
  let ?r = "format_dial_code (get_default (c_idd_root c) []) (get_default (c_idd_suffixes c) [])
              (get_default (c_cca2 c) [])"
  show ?case
  proof (cases ?r)
    case None
    then have "\<not> has_root c"
      by (simp add: has_root_def format_dial_code_None)
    then show ?thesis
      using None Cons.IH [of "Suc i" P D] by simp
  next
    case (Some d)
    then have d: "d \<noteq> []" by (rule format_dial_code_nonempty)
    have hr: "has_root c"
      using Some format_dial_code_None [of "get_default (c_idd_root c) []"
        "get_default (c_idd_suffixes c) []" "get_default (c_cca2 c) []"]
      by (auto simp: has_root_def)
    let ?it = "\<lambda>p. \<lparr> item_name = get_default (c_name_common c) (py ''Unknown''),
                     item_code = get_default (c_cca2 c) [], item_dial_code = d,
                     item_emoji = get_default (get_flag_emoji w (get_default (c_cca2 c) [])) [],
                     item_flag_path = p \<rparr>"
    obtain it D1 where step: "process_countries w i (c # cs) (P, D) =
          process_countries w (Suc i) cs (P @ [it], D @ D1)"
      and it: "item_of c it" "item_dial_code it = d"
    proof (cases "download_svg w i (get_default (c_flags_svg c) []) (get_default (c_cca2 c) [])")
      case None
      show ?thesis
        by (rule that [of "?it []" "[]"]) (simp_all add: Some d None Let_def item_of_def)
    next
      case (Some f)
      show ?thesis
        by (rule that [of "?it (py ''resource://'' @ resource_prefix w @ py ''/assets/data/svg/'' @ f)" "[f]"])
          (simp_all add: \<open>?r = Some d\<close> d Some Let_def item_of_def)
    qed
    obtain P' D' where rest: "process_countries w (Suc i) cs (P @ [it], D @ D1) =
          ((P @ [it]) @ P', (D @ D1) @ D')"
      and corr: "list_all2 (\<lambda>it c. item_of c it) P' (filter has_root cs)"
      and ne: "\<forall>it\<in>set P'. item_dial_code it \<noteq> []"
      using Cons.IH [of "Suc i" "P @ [it]" "D @ D1"] by blast
    have "process_countries w i (c # cs) (P, D) = (P @ (it # P'), D @ (D1 @ D'))"
      using step rest by simp
    moreover have "list_all2 (\<lambda>it c. item_of c it) (it # P') (filter has_root (c # cs))"
      using hr it corr by simp
    moreover have "\<forall>x\<in>set (it # P'). item_dial_code x \<noteq> []"
      using ne it d by simp
    ultimately show ?thesis by blast
  qed
qed

lemma run_countries_items:
  "list_all2 (\<lambda>it c. item_of c it) (fst (run_countries w data)) (filter has_root (sort_countries data))
   \<and> (\<forall>it\<in>set (fst (run_countries w data)). item_dial_code it \<noteq> [])"
  using process_countries_acc [of w 0 "sort_countries data" "[]" "[]"]
  by (auto simp: run_countries_def)

lemma country_main_persisted:
  assumes "api_data w = Some data" and "fst (country_main w) = Some persisted"
  shows "persisted = fst (run_countries w data)"
  using assms by (auto simp: country_main_def split: if_splits prod.splits)

lemmas world_eval = example_world_def country_main_def run_countries_def sort_countries_def
  get_default_def format_dial_code_def download_svg_def get_flag_emoji_def OFFSET_def
  endswith_def py_def Let_def

lemma example_run:
  "run_countries example_world (the (api_data example_world)) =
     ([\<lparr> item_name = py ''United States'', item_code = py ''US'', item_dial_code = py ''+1'',
         item_emoji = [127482, 127480], item_flag_path = [] \<rparr>], [])"
  by (simp add: world_eval)

lemma example_main:
  "country_main example_world =
     (Some [\<lparr> item_name = py ''United States'', item_code = py ''US'', item_dial_code = py ''+1'',
         item_emoji = [127482, 127480], item_flag_path = [] \<rparr>], Some example_manifest)"
  by (simp add: world_eval)

text \<open>
  Claim C5, as amended. For a record whose dialing root is not empty: root +1 with code
  US or CA gives exactly +1, and root +7 with code RU or KZ gives exactly +7, whatever
  the suffixes; every other record gives the root followed by the first suffix when
  there is one, and the root alone otherwise. For an empty root there is no dial code.
\<close>

theorem dial_code_cases:
  assumes "root \<noteq> []"
  shows "(root = py ''+1'' \<and> (cca2 = py ''US'' \<or> cca2 = py ''CA'') \<longrightarrow>
            format_dial_code root suffixes cca2 = Some (py ''+1''))
       \<and> (root = py ''+7'' \<and> (cca2 = py ''RU'' \<or> cca2 = py ''KZ'') \<longrightarrow>
            format_dial_code root suffixes cca2 = Some (py ''+7''))
       \<and> (\<not> (root = py ''+1'' \<and> (cca2 = py ''US'' \<or> cca2 = py ''CA'')) \<and>
          \<not> (root = py ''+7'' \<and> (cca2 = py ''RU'' \<or> cca2 = py ''KZ'')) \<longrightarrow>
            format_dial_code root suffixes cca2 =
              Some (case suffixes of [] \<Rightarrow> root | suffix # rest \<Rightarrow> root @ suffix))
       \<and> format_dial_code [] suffixes cca2 = None"
proof -
  have a: "py ''+1'' \<noteq> py ''+7''"
    by (simp add: py_def)
  show ?thesis
    using assms a by (cases suffixes) (auto simp: format_dial_code_def)
qed

text \<open>
  C5 at root +1: the Bahamas with suffix 242, the United States, and a territory
  without suffix.
\<close>

theorem dial_code_cases_witness:
  "py ''+1'' \<noteq> []
   \<and> format_dial_code (py ''+1'') [py ''242''] (py ''BS'') = Some (py ''+1242'')
   \<and> format_dial_code (py ''+1'') [py ''201''] (py ''US'') = Some (py ''+1'')
   \<and> format_dial_code (py ''+1'') [] (py ''BS'') = Some (py ''+1'')"
proof -
  have h: "py ''+1'' \<noteq> []"
    by (simp add: py_def)
  have n: "py ''BS'' \<noteq> py ''US''" "py ''BS'' \<noteq> py ''CA''" "py ''+1'' \<noteq> py ''+7''"
    by (simp_all add: py_def)
  have c: "py ''+1'' @ py ''242'' = py ''+1242''"
    by (simp add: py_def)
  have 1: "format_dial_code (py ''+1'') [py ''242''] (py ''BS'') = Some (py ''+1242'')"
    using dial_code_cases [OF h, of "py ''BS''" "[py ''242'']"] n c by simp
  have 2: "format_dial_code (py ''+1'') [py ''201''] (py ''US'') = Some (py ''+1'')"
    using dial_code_cases [OF h, of "py ''US''" "[py ''201'']"] by simp
  have 3: "format_dial_code (py ''+1'') [] (py ''BS'') = Some (py ''+1'')"
    using dial_code_cases [OF h, of "py ''BS''" "[]"] n by simp
  show ?thesis
    by (intro conjI) (rule h, rule 1, rule 2, rule 3)
qed

text \<open>
  Claim C5 as stated fails for an empty root: with the suffix 44 the result is not the
  root followed by the suffix, there is none.
\<close>

theorem dial_code_counterexample:
  "format_dial_code [] [py ''44''] (py ''GB'') = None
   \<and> format_dial_code [] [py ''44''] (py ''GB'') \<noteq> Some ([] @ py ''44'')"
  by (simp add: format_dial_code_def)

text \<open>
  Claim C7. The list the pipeline persists corresponds, one to one and in order, to the
  records of the sorted input whose dialing root is neither absent nor empty, so a record
  without root is absent from it; and no persisted record has an empty dial code.
\<close>

theorem persisted_records:
  assumes "api_data w = Some data" and "fst (country_main w) = Some persisted"
  shows "list_all2 (\<lambda>it c. item_of c it) persisted (filter has_root (sort_countries data))
       \<and> (\<forall>it\<in>set persisted. item_dial_code it \<noteq> [])"
proof -
  have "persisted = fst (run_countries w data)"
    using assms by (rule country_main_persisted)
  then show ?thesis
    using run_countries_items [of w data] by simp
qed

text \<open>
  C7 on the example: Antarctica, which has no root, is dropped; the United States are
  persisted.
\<close>

theorem persisted_records_witness:
  "api_data example_world = Some (the (api_data example_world))
   \<and> fst (country_main example_world) =
       Some [\<lparr> item_name = py ''United States'', item_code = py ''US'', item_dial_code = py ''+1'',
               item_emoji = [127482, 127480], item_flag_path = [] \<rparr>]
   \<and> filter has_root (sort_countries (the (api_data example_world))) =
       [\<lparr> c_cca2 = Some (py ''US''), c_name_common = Some (py ''United States''),
          c_idd_root = Some (py ''+1''), c_idd_suffixes = Some [py ''201''],
          c_flags_svg = None \<rparr>]
   \<and> list_all2 (\<lambda>it c. item_of c it)
       [\<lparr> item_name = py ''United States'', item_code = py ''US'', item_dial_code = py ''+1'',
          item_emoji = [127482, 127480], item_flag_path = [] \<rparr>]
       (filter has_root (sort_countries (the (api_data example_world))))"
proof -
  let ?p = "[\<lparr> item_name = py ''United States'', item_code = py ''US'', item_dial_code = py ''+1'',
               item_emoji = [127482, 127480], item_flag_path = [] \<rparr>]"
  have h1: "api_data example_world = Some (the (api_data example_world))"
    by (simp add: example_world_def)
  have h2: "fst (country_main example_world) = Some ?p"
    by (simp add: example_main)
  have f: "filter has_root (sort_countries (the (api_data example_world))) =
       [\<lparr> c_cca2 = Some (py ''US''), c_name_common = Some (py ''United States''),
          c_idd_root = Some (py ''+1''), c_idd_suffixes = Some [py ''201''],
          c_flags_svg = None \<rparr>]"
    by (simp add: example_world_def sort_countries_def has_root_def get_default_def py_def)
  from persisted_records [OF h1 h2]
  have r: "list_all2 (\<lambda>it c. item_of c it) ?p
             (filter has_root (sort_countries (the (api_data example_world))))"
    by (rule conjunct1)
  show ?thesis
    by (intro conjI) (rule h1, rule h2, rule f, rule r)
qed

text \<open>
  Claim C3, as amended. When no asset was materialized the pipeline does not call the
  synchronization (the guard of line 195), and the manifest is left as it was. The
  synchronization itself, given the empty list, removes every generated-asset
  declaration and inserts none.
\<close>

theorem empty_set_sync:
  assumes "api_data w = Some data" and "snd (run_countries w data) = []"
  shows "snd (country_main w) = xml_file w
       \<and> update_gresource_xml [] (Some lines) =
           (Some (filter (\<lambda>l. \<not> is_flag_line l) lines),
            [py ''Updating GResource XML...'', py ''XML updated successfully.''])"
proof -
  have "concat (map (emit []) lines) = filter (\<lambda>l. \<not> is_flag_line l) lines"
    by (induction lines) (simp_all add: emit_def)
  then have "update_lines [] lines [] = filter (\<lambda>l. \<not> is_flag_line l) lines"
    by (simp add: update_lines_emit)
  moreover have "snd (country_main w) = xml_file w"
    using assms by (cases "run_countries w data") (simp add: country_main_def)
  ultimately show ?thesis
    by (simp add: update_gresource_xml_def)
qed

text \<open>
  C3 on the example, where no flag is downloaded.
\<close>

theorem empty_set_sync_witness:
  "api_data example_world = Some (the (api_data example_world))
   \<and> snd (run_countries example_world (the (api_data example_world))) = []
   \<and> snd (country_main example_world) = xml_file example_world"
proof -
  have h1: "api_data example_world = Some (the (api_data example_world))"
    by (simp add: example_world_def)
  have h2: "snd (run_countries example_world (the (api_data example_world))) = []"
    by (simp add: example_run)
  from empty_set_sync [OF h1 h2]
  have r: "snd (country_main example_world) = xml_file example_world"
    by (rule conjunct1)
  show ?thesis
    by (intro conjI) (rule h1, rule h2, rule r)
qed

text \<open>
  Claim C3 as stated fails: in the example run nothing is materialized, and the manifest
  still holds the stale declaration of us.svg afterwards.
\<close>

theorem empty_set_sync_counterexample:
  "snd (run_countries example_world (the (api_data example_world))) = []
   \<and> snd (country_main example_world) = Some example_manifest
   \<and> ln ''    <file>assets/data/svg/us.svg</file>'' \<in> set example_manifest
   \<and> is_flag_line (ln ''    <file>assets/data/svg/us.svg</file>'')"
proof -
  have 1: "snd (run_countries example_world (the (api_data example_world))) = []"
    by (simp add: example_run)
  have 2: "snd (country_main example_world) = Some example_manifest"
    by (simp add: example_main)
  have 3: "ln ''    <file>assets/data/svg/us.svg</file>'' \<in> set example_manifest"
    by (simp add: example_manifest_def)
  have 4: "is_flag_line (ln ''    <file>assets/data/svg/us.svg</file>'')"
    by (simp add: manifest_eval)
  show ?thesis
    by (intro conjI) (rule 1, rule 2, rule 3, rule 4)
qed

section \<open>Properties of the string extraction\<close>

lemma harvest_list_eq:
  "harvest_list xs S = S \<union> {strip s | s. JString s \<in> set xs \<and> strip s \<noteq> []}"
  by (induction xs S rule: harvest_list.induct) auto

lemma harvest_value_eq:
  "harvest_value v S =
     S \<union> {strip s | s. (v = JString s \<or> (\<exists>xs. v = JArray xs \<and> JString s \<in> set xs)) \<and> strip s \<noteq> []}"
  by (cases v) (auto simp: harvest_list_eq)

lemma translatable_scalar [simp]:
  "\<not> translatable keys JNull s" "\<not> translatable keys (JBool b) s"
  "\<not> translatable keys (JInt n) s" "\<not> translatable keys (JFloat x) s"
  "\<not> translatable keys (JString t) s"
  by (auto elim: translatable.cases)

lemma translatable_empty [simp]:
  "\<not> translatable keys (JObject []) s" "\<not> translatable keys (JArray []) s"
  by (auto elim: translatable.cases)

lemma translatable_array_Cons:
  "translatable keys (JArray (x # xs)) s \<longleftrightarrow>
     translatable keys x s \<or> translatable keys (JArray xs) s"
proof
  assume "translatable keys (JArray (x # xs)) s"
  then show "translatable keys x s \<or> translatable keys (JArray xs) s"
    by (cases rule: translatable.cases) (auto intro: translatable.in_list)
next
  assume "translatable keys x s \<or> translatable keys (JArray xs) s"
  then show "translatable keys (JArray (x # xs)) s"
  proof
    assume "translatable keys x s"
    then show ?thesis by (rule translatable.in_list [rotated]) simp
  next
    assume "translatable keys (JArray xs) s"
    then show ?thesis
      by (cases rule: translatable.cases) (auto intro: translatable.in_list)
  qed
qed

lemma translatable_object_Cons:
  "translatable keys (JObject ((k, v) # kvs)) s \<longleftrightarrow>
     (k \<in> keys \<and> (v = JString s \<or> (\<exists>xs. v = JArray xs \<and> JString s \<in> set xs)))
     \<or> (k \<notin> keys \<and> translatable keys v s)
     \<or> translatable keys (JObject kvs) s"
proof
  assume "translatable keys (JObject ((k, v) # kvs)) s"
  then show "(k \<in> keys \<and> (v = JString s \<or> (\<exists>xs. v = JArray xs \<and> JString s \<in> set xs)))
     \<or> (k \<notin> keys \<and> translatable keys v s) \<or> translatable keys (JObject kvs) s"
    by (cases rule: translatable.cases)
      (auto intro: translatable.direct translatable.element translatable.in_value)
next
  assume a: "(k \<in> keys \<and> (v = JString s \<or> (\<exists>xs. v = JArray xs \<and> JString s \<in> set xs)))
     \<or> (k \<notin> keys \<and> translatable keys v s) \<or> translatable keys (JObject kvs) s"
  then consider (d) "k \<in> keys" "v = JString s"
    | (e) xs where "k \<in> keys" "v = JArray xs" "JString s \<in> set xs"
    | (r) "k \<notin> keys" "translatable keys v s"
    | (t) "translatable keys (JObject kvs) s"
    by blast
  then show "translatable keys (JObject ((k, v) # kvs)) s"
  proof cases
    case d
    then show ?thesis by (intro translatable.direct [of k]) simp_all
  next
    case e
    then show ?thesis by (intro translatable.element [of k xs]) simp_all
  next
    case r
    then show ?thesis by (intro translatable.in_value [of k v]) simp_all
  next
    case t
    then show ?thesis
      by (cases rule: translatable.cases)
        (auto intro: translatable.direct translatable.element translatable.in_value)
  qed
qed

lemma spec_strings_scalar [simp]:
  "spec_strings keys JNull = {}" "spec_strings keys (JBool b) = {}"
  "spec_strings keys (JInt n) = {}" "spec_strings keys (JFloat x) = {}"
  "spec_strings keys (JString t) = {}"
  "spec_strings keys (JObject []) = {}" "spec_strings keys (JArray []) = {}"
  by (simp_all add: spec_strings_def)

lemma spec_strings_array_Cons:
  "spec_strings keys (JArray (x # xs)) = spec_strings keys x \<union> spec_strings keys (JArray xs)"
  by (auto simp: spec_strings_def translatable_array_Cons)

lemma spec_strings_object_Cons:
  "spec_strings keys (JObject ((k, v) # kvs)) =
     (if k \<in> keys then harvest_value v {} else spec_strings keys v)
     \<union> spec_strings keys (JObject kvs)"
  by (auto simp: spec_strings_def translatable_object_Cons harvest_value_eq)

lemma harvest_value_acc: "harvest_value v S = S \<union> harvest_value v {}"
  using harvest_value_eq [of v S] harvest_value_eq [of v "{}"] by simp

lemma extract_eq_spec:
  "extract_strings_recursive keys obj S = S \<union> spec_strings keys obj"
  "extract_dict_items keys kvs S = S \<union> spec_strings keys (JObject kvs)"
  "extract_list_items keys xs S = S \<union> spec_strings keys (JArray xs)"
proof (induction keys obj S and keys kvs S and keys xs S
    rule: extract_strings_recursive_extract_dict_items_extract_list_items.induct)
  case (9 keys key val rest string_set)
  show ?case
  proof (cases "key \<in> keys")
    case True
    then show ?thesis
      using 9 harvest_value_acc [of val string_set]
      by (simp add: spec_strings_object_Cons Un_assoc)
  next
    case False
    then show ?thesis
      using 9 by (simp add: spec_strings_object_Cons Un_assoc)
  qed
next
  case (11 keys x rest string_set)
  then show ?case
    by (simp add: spec_strings_array_Cons Un_assoc)
qed simp_all

lemmas json_eval = example_json_def example_bare_def example_wrapped_def TRANSLATABLE_KEYS_def
  py_def strip_def lstrip_def rstrip_def isspace_def

lemma example_extract:
  "extract_strings_recursive (set [py ''name'', py ''keywords'']) example_json {} =
     {py ''Coffee'', py ''drink'', py ''hot''}"
  by (simp add: json_eval insert_commute)

lemma example_extract_script:
  "extract_strings_recursive TRANSLATABLE_KEYS example_json {} =
     {py ''Coffee'', py ''drink'', py ''hot''}"
  by (simp add: json_eval insert_commute)

text \<open>
  Claim C4. For every value and every set of translatable keys, the extractor adds to
  the set exactly the trimmed, non-empty strings that are the value of a translatable
  key or an element of a list that is the value of a translatable key, where the value
  of a translatable key is not searched further, the value of any other key and every
  element of a list are searched, and other scalars are ignored. On the specification's
  example it yields Coffee, drink and hot, with the keys name and keywords and with the
  script's own keys.
\<close>

theorem extraction_is_spec:
  "extract_strings_recursive keys obj string_set =
     string_set \<union> {strip s | s. translatable keys obj s \<and> strip s \<noteq> []}
   \<and> extract_strings_recursive (set [py ''name'', py ''keywords'']) example_json {} =
       {py ''Coffee'', py ''drink'', py ''hot''}
   \<and> extract_strings_recursive TRANSLATABLE_KEYS example_json {} =
       {py ''Coffee'', py ''drink'', py ''hot''}"
proof -
  have "extract_strings_recursive keys obj string_set =
     string_set \<union> {strip s | s. translatable keys obj s \<and> strip s \<noteq> []}"
    using extract_eq_spec(1) [of keys obj string_set] by (simp add: spec_strings_def)
  then show ?thesis
    by (intro conjI) (assumption, rule example_extract, rule example_extract_script)
qed

text \<open>
  C4 on the example: the theorem turns the extractor's result into the set of the
  translatable strings of the example.
\<close>

theorem extraction_is_spec_witness:
  "{strip s | s. translatable (set [py ''name'', py ''keywords'']) example_json s \<and> strip s \<noteq> []} =
     {py ''Coffee'', py ''drink'', py ''hot''}"
proof -
  let ?keys = "set [py ''name'', py ''keywords'']"
  note t = extraction_is_spec [of ?keys example_json "{}"]
  have a: "extract_strings_recursive ?keys example_json {} =
      {} \<union> {strip s | s. translatable ?keys example_json s \<and> strip s \<noteq> []}"
    using t by (rule conjunct1)
  have b: "extract_strings_recursive ?keys example_json {} = {py ''Coffee'', py ''drink'', py ''hot''}"
    using t by (elim conjE)
  have "{strip s | s. translatable ?keys example_json s \<and> strip s \<noteq> []} =
      extract_strings_recursive ?keys example_json {}"
    unfolding a by (rule Un_empty_left [symmetric])
  then show ?thesis
    unfolding b .
qed

lemma process_json_file_set:
  "fst (snd (process_json_file keys name (Inr d) string_set)) =
     extract_strings_recursive keys (unwrap_data d) string_set"
  by (simp add: process_json_file_def Let_def)

text \<open>
  Claim C6, as amended. When the root is a mapping with a key data, processing the file
  extracts from that key's value exactly what the recursive extractor finds in the value;
  this is what processing the value as a root of its own gives whenever the value is not
  itself a mapping with a key data. When the root is a mapping without that key, or not a
  mapping, processing extracts from the root.
\<close>

theorem data_wrapper:
  "(map_of kvs (py ''data'') = Some v \<longrightarrow>
      fst (snd (process_json_file keys name (Inr (JObject kvs)) string_set)) =
        extract_strings_recursive keys v string_set)
   \<and> (map_of kvs (py ''data'') = Some v \<and>
      (\<forall>kvs'. v = JObject kvs' \<longrightarrow> map_of kvs' (py ''data'') = None) \<longrightarrow>
      fst (snd (process_json_file keys name (Inr (JObject kvs)) string_set)) =
        fst (snd (process_json_file keys name' (Inr v) string_set)))
   \<and> (map_of kvs (py ''data'') = None \<longrightarrow>
      fst (snd (process_json_file keys name (Inr (JObject kvs)) string_set)) =
        extract_strings_recursive keys (JObject kvs) string_set)
   \<and> ((\<forall>kvs'. root \<noteq> JObject kvs') \<longrightarrow>
      fst (snd (process_json_file keys name (Inr root) string_set)) =
        extract_strings_recursive keys root string_set)"
proof -
  have a: "unwrap_data root = root" if "\<forall>kvs'. root \<noteq> JObject kvs'"
    using that by (cases root) (simp_all add: unwrap_data_def)
  have b: "unwrap_data v = v" if "\<forall>kvs'. v = JObject kvs' \<longrightarrow> map_of kvs' (py ''data'') = None"
    using that by (cases v) (simp_all add: unwrap_data_def)
  have c: "unwrap_data (JObject kvs) = v" if "map_of kvs (py ''data'') = Some v"
    using that by (simp add: unwrap_data_def)
  have d: "unwrap_data (JObject kvs) = JObject kvs" if "map_of kvs (py ''data'') = None"
    using that by (simp add: unwrap_data_def)
  show ?thesis
    by (intro conjI impI; (elim conjE)?) (simp_all add: process_json_file_set a b c d)
qed

text \<open>
  C6 on the specification's example: the wrapped list and the bare list give the same
  set, the string X.
\<close>

theorem data_wrapper_witness:
  "map_of [(py ''data'', example_bare)] (py ''data'') = Some example_bare
   \<and> fst (snd (process_json_file TRANSLATABLE_KEYS (py ''a.json'') (Inr example_wrapped) {})) =
       fst (snd (process_json_file TRANSLATABLE_KEYS (py ''b.json'') (Inr example_bare) {}))
   \<and> fst (snd (process_json_file TRANSLATABLE_KEYS (py ''a.json'') (Inr example_wrapped) {})) =
       {py ''X''}"
proof -
  have h: "map_of [(py ''data'', example_bare)] (py ''data'') = Some example_bare"
    by simp
  have nb: "\<forall>kvs'. example_bare = JObject kvs' \<longrightarrow> map_of kvs' (py ''data'') = None"
    by (simp add: example_bare_def)
  note t = data_wrapper [of "[(py ''data'', example_bare)]" example_bare TRANSLATABLE_KEYS
      "py ''a.json''" "{}" "py ''b.json''"]
  have w: "fst (snd (process_json_file TRANSLATABLE_KEYS (py ''a.json'') (Inr example_wrapped) {})) =
      fst (snd (process_json_file TRANSLATABLE_KEYS (py ''b.json'') (Inr example_bare) {}))"
    using t h nb unfolding example_wrapped_def by blast
  have e: "fst (snd (process_json_file TRANSLATABLE_KEYS (py ''a.json'') (Inr example_wrapped) {})) =
      extract_strings_recursive TRANSLATABLE_KEYS example_bare {}"
    using t h unfolding example_wrapped_def by blast
  have x: "extract_strings_recursive TRANSLATABLE_KEYS example_bare {} = {py ''X''}"
    by (simp add: json_eval)
  show ?thesis
    by (intro conjI) (rule h, rule w, simp only: e x)
qed

text \<open>
  Claim C6 as stated fails for a value that is itself a mapping with a key data, since
  one level only is unwrapped: under a key data the mapping gives the string Y, as a
  root of its own it gives nothing.
\<close>

theorem data_wrapper_counterexample:
  "map_of [(py ''data'', example_nested)] (py ''data'') = Some example_nested
   \<and> fst (snd (process_json_file TRANSLATABLE_KEYS (py ''a.json'')
        (Inr (JObject [(py ''data'', example_nested)])) {})) = {py ''Y''}
   \<and> fst (snd (process_json_file TRANSLATABLE_KEYS (py ''a.json'') (Inr example_nested) {})) = {}"
  by (simp add: process_json_file_def unwrap_data_def example_nested_def Let_def
      TRANSLATABLE_KEYS_def py_def strip_def lstrip_def rstrip_def isspace_def)

section \<open>Properties of the template emitter and of the generator\<close>

lemma replace_char_concat:
  "replace_char old new (concat xss) = concat (map (replace_char old new) xss)"
  by (induction xss) (simp_all add: replace_char_def)

lemma escape_one:
  "replace_char dquote [backslash, dquote]
     (if c = backslash then [backslash, backslash] else [c]) = escape_char c"
  by (simp add: replace_char_def escape_char_def dquote_def backslash_def)

lemma escape_string_eq: "escape_string s = concat (map escape_char s)"
proof -
  have "escape_string s =
      concat (map (\<lambda>c. replace_char dquote [backslash, dquote]
        (if c = backslash then [backslash, backslash] else [c])) s)"
    unfolding escape_string_def
    by (subst replace_char_def [of backslash]) (simp add: replace_char_concat comp_def)
  then show ?thesis
    by (simp only: escape_one)
qed

lemma escape_Coffee: "concat (map escape_char (py ''Coffee'')) = py ''Coffee''"
  by (simp add: escape_char_def py_def backslash_def dquote_def)

lemma encodable_Nil [simp]: "utf8_encodable []"
  by (simp add: utf8_encodable_def)

lemma encodable_append [simp]:
  "utf8_encodable (a @ b) \<longleftrightarrow> utf8_encodable a \<and> utf8_encodable b"
  by (auto simp: utf8_encodable_def)

lemma encodable_Cons:
  "utf8_encodable (c # s) \<longleftrightarrow> (c < 55296 \<or> 57343 < c) \<and> utf8_encodable s"
  by (simp add: utf8_encodable_def)

lemma of_char_small: "of_char c < (256 :: nat)"
proof -
  have "(of_char c :: nat) = of_char c mod 256"
    by simp
  also have "\<dots> < 256"
    by (rule mod_less_divisor) simp
  finally show ?thesis .
qed

lemma encodable_py [simp]: "utf8_encodable (py cs)"
proof -
  have "of_char c < (55296 :: nat)" for c
    by (rule less_trans [OF of_char_small]) simp
  then show ?thesis
    by (simp add: utf8_encodable_def py_def)
qed

lemma encodable_marks [simp]:
  "utf8_encodable [newline]" "utf8_encodable [dquote]" "utf8_encodable [backslash]"
  "utf8_encodable [dquote, newline]" "utf8_encodable [dquote, dquote, newline]"
  "utf8_encodable [dquote, dquote, newline, newline]"
  by (simp_all add: encodable_Cons newline_def dquote_def backslash_def)

lemma encodable_mark_Cons [simp]:
  "utf8_encodable (newline # s) \<longleftrightarrow> utf8_encodable s"
  "utf8_encodable (dquote # s) \<longleftrightarrow> utf8_encodable s"
  "utf8_encodable (backslash # s) \<longleftrightarrow> utf8_encodable s"
  by (simp_all add: encodable_Cons newline_def dquote_def backslash_def)

lemma encodable_escape_char: "utf8_encodable (escape_char c) \<longleftrightarrow> c < 55296 \<or> 57343 < c"
  by (simp add: escape_char_def encodable_Cons backslash_def)

lemma encodable_escape [simp]: "utf8_encodable (escape_string s) \<longleftrightarrow> utf8_encodable s"
  unfolding escape_string_eq
  by (induction s) (simp_all add: encodable_escape_char encodable_Cons)

lemma encodable_join:
  "utf8_encodable sep \<Longrightarrow> \<forall>x\<in>set xs. utf8_encodable x \<Longrightarrow> utf8_encodable (join sep xs)"
  by (induction sep xs rule: join.induct) simp_all

lemma encodable_header [simp]: "utf8_encodable (pot_header d) \<longleftrightarrow> utf8_encodable d"
  by (simp add: pot_header_def hdr_comment_def hdr_field_def)

lemma write_blocks_ok:
  assumes "utf8_encodable (join (py '', '') source_files)" and "\<forall>s\<in>set ss. utf8_encodable s"
  shows "write_blocks (join (py '', '') source_files) ss f =
           (f @ concat (map (spec_block source_files) ss), None)"
  using assms
  by (induction ss arbitrary: f) (simp_all add: f_write_def spec_block_def escape_string_eq [symmetric])

lemma write_blocks_fail:
  "\<exists>s\<in>set ss. \<not> utf8_encodable s \<Longrightarrow> snd (write_blocks sc ss f) = Some UnicodeEncodeError"
proof (induction ss arbitrary: f)
  case Nil
  then show ?case by simp
next
  case (Cons s ss)
  show ?case
  proof (cases "utf8_encodable sc")
    case False
    then show ?thesis by (simp add: f_write_def)
  next
    case sc: True
    show ?thesis
    proof (cases "utf8_encodable s")
      case False
      then show ?thesis using sc by (simp add: f_write_def)
    next
      case True
      then have "\<exists>x\<in>set ss. \<not> utf8_encodable x"
        using Cons.prems by auto
      then show ?thesis
        using sc True Cons.IH by (simp add: f_write_def)
    qed
  qed
qed

lemma generate_ok:
  assumes "finite strings" and "\<forall>s\<in>strings. utf8_encodable s"
    and "\<forall>n\<in>set source_files. utf8_encodable n" and "utf8_encodable creation_date"
  shows "generate_pot_file creation_date strings source_files =
     (pot_header creation_date @
        concat (map (spec_block source_files) (sorted_list_of_set (strings - {[]}))),
      Inr (card (strings - {[]})))"
proof -
  have j: "utf8_encodable (join (py '', '') source_files)"
    using assms(3) by (intro encodable_join) simp_all
  have s: "\<forall>s\<in>set (sorted_list_of_set (strings - {[]})). utf8_encodable s"
    using assms(1,2) by simp
  have l: "length (sorted_list_of_set (strings - {[]})) = card (strings - {[]})"
    by simp
  show ?thesis
    unfolding generate_pot_file_def Let_def
    by (simp only: write_blocks_ok [OF j s] l) (simp add: f_write_def assms(4))
qed

lemma generate_fail:
  assumes "finite strings" and "\<exists>s\<in>strings. \<not> utf8_encodable s"
  shows "snd (generate_pot_file creation_date strings source_files) = Inl UnicodeEncodeError"
proof -
  obtain s where "s \<in> strings" and n: "\<not> utf8_encodable s"
    using assms(2) by blast
  moreover from n have "s \<noteq> []" by auto
  ultimately have "\<exists>s\<in>set (sorted_list_of_set (strings - {[]})). \<not> utf8_encodable s"
    using assms(1) by auto
  then have "snd (write_blocks sc (sorted_list_of_set (strings - {[]})) f) =
      Some UnicodeEncodeError" for sc f
    by (rule write_blocks_fail)
  then show ?thesis
    by (auto simp: generate_pot_file_def Let_def f_write_def split: prod.splits option.splits
        dest: arg_cong [where f = snd])
qed

text \<open>
  Claim C8, as amended. For a finite set of non-empty strings and a list of source
  files, all without surrogate code points, the text written is the header followed by
  one block per string of the set, the strings in lexicographic order and each once; a
  block is the comment with all source file names joined by commas, the message
  identifier with every backslash and double quote preceded by a backslash, and an empty
  translation; the count returned is the number of strings. For the set that holds only
  Coffee the text is the header and the one block with the identifier Coffee and the
  empty translation, and the count is 1. When a string of the set holds a surrogate code
  point, the write raises and no count is returned.
\<close>

theorem pot_document:
  "(finite strings \<and> [] \<notin> strings \<and> (\<forall>s\<in>strings. utf8_encodable s) \<and>
      (\<forall>n\<in>set source_files. utf8_encodable n) \<and> utf8_encodable creation_date \<longrightarrow>
        generate_pot_file creation_date strings source_files =
          (pot_header creation_date @
             concat (map (spec_block source_files) (sorted_list_of_set strings)),
           Inr (card strings))
        \<and> sorted (sorted_list_of_set strings)
        \<and> distinct (sorted_list_of_set strings)
        \<and> set (sorted_list_of_set strings) = strings
        \<and> generate_pot_file creation_date {py ''Coffee''} source_files =
            (pot_header creation_date @
               py ''#: '' @ join (py '', '') source_files @ [newline] @
               py ''msgid '' @ [dquote] @ py ''Coffee'' @ [dquote, newline] @
               py ''msgstr '' @ [dquote, dquote, newline, newline],
             Inr 1))
   \<and> escape_string s = concat (map escape_char s)
   \<and> (finite strings \<and> (\<exists>s\<in>strings. \<not> utf8_encodable s) \<longrightarrow>
        snd (generate_pot_file creation_date strings source_files) = Inl UnicodeEncodeError)"
proof (intro conjI impI)
  show "escape_string s = concat (map escape_char s)"
    by (rule escape_string_eq)
next
  assume "finite strings \<and> (\<exists>s\<in>strings. \<not> utf8_encodable s)"
  then show "snd (generate_pot_file creation_date strings source_files) = Inl UnicodeEncodeError"
    by (intro generate_fail) simp_all
next
  assume h: "finite strings \<and> [] \<notin> strings \<and> (\<forall>s\<in>strings. utf8_encodable s) \<and>
      (\<forall>n\<in>set source_files. utf8_encodable n) \<and> utf8_encodable creation_date"
  then have fin: "finite strings" and ne: "[] \<notin> strings"
    and es: "\<forall>s\<in>strings. utf8_encodable s"
    and ef: "\<forall>n\<in>set source_files. utf8_encodable n" and ed: "utf8_encodable creation_date"
    by simp_all
  have s: "strings - {[]} = strings"
    using ne by simp
  show "generate_pot_file creation_date strings source_files =
          (pot_header creation_date @
             concat (map (spec_block source_files) (sorted_list_of_set strings)),
           Inr (card strings))"
    using generate_ok [OF fin es ef ed] by (simp only: s)
  show "sorted (sorted_list_of_set strings)"
    by simp
  show "distinct (sorted_list_of_set strings)"
    by simp
  show "set (sorted_list_of_set strings) = strings"
    using fin by simp
  have c: "{py ''Coffee''} - {[]} = {py ''Coffee''}"
    by (simp add: py_def)
  have "generate_pot_file creation_date {py ''Coffee''} source_files =
     (pot_header creation_date @
        concat (map (spec_block source_files) (sorted_list_of_set ({py ''Coffee''} - {[]}))),
      Inr (card ({py ''Coffee''} - {[]})))"
    using ef ed by (intro generate_ok) simp_all
  then show "generate_pot_file creation_date {py ''Coffee''} source_files =
            (pot_header creation_date @
               py ''#: '' @ join (py '', '') source_files @ [newline] @
               py ''msgid '' @ [dquote] @ py ''Coffee'' @ [dquote, newline] @
               py ''msgstr '' @ [dquote, dquote, newline, newline],
             Inr 1)"
    by (simp add: c spec_block_def escape_Coffee)
qed

text \<open>
  C8 on a set of two strings and two source files: the blocks come in sorted order.
\<close>

theorem pot_document_witness:
  "finite {py ''b\<newline>'', py ''a''}
   \<and> [] \<notin> {py ''b\<newline>'', py ''a''}
   \<and> utf8_encodable (py ''b\<newline>'') \<and> utf8_encodable (py ''a'')
   \<and> utf8_encodable (py ''x.json'') \<and> utf8_encodable (py ''y.json'')
   \<and> utf8_encodable (py ''2025-01-01 00:00+0000'')
   \<and> generate_pot_file (py ''2025-01-01 00:00+0000'') {py ''b\<newline>'', py ''a''}
        [py ''x.json'', py ''y.json''] =
       (pot_header (py ''2025-01-01 00:00+0000'') @
          spec_block [py ''x.json'', py ''y.json''] (py ''a'') @
          spec_block [py ''x.json'', py ''y.json''] (py ''b\<newline>''),
        Inr 2)"
proof -
  let ?S = "{py ''b\<newline>'', py ''a''}"
  let ?fs = "[py ''x.json'', py ''y.json'']"
  let ?d = "py ''2025-01-01 00:00+0000''"
  have h1: "finite ?S"
    by simp
  have h2: "[] \<notin> ?S"
    by (simp add: py_def)
  have h3: "\<forall>s\<in>?S. utf8_encodable s"
    by simp
  have h4: "\<forall>n\<in>set ?fs. utf8_encodable n"
    by simp
  have h5: "utf8_encodable ?d"
    by simp
  have o: "sorted_list_of_set ?S = [py ''a'', py ''b\<newline>'']"
    by (simp add: py_def sorted_list_of_set.sorted_key_list_of_set_insert_remove)
  have c: "card ?S = 2"
    by (simp add: py_def)
  note t = pot_document [of ?S ?fs ?d]
  have imp: "finite ?S \<and> [] \<notin> ?S \<and> (\<forall>s\<in>?S. utf8_encodable s) \<and>
      (\<forall>n\<in>set ?fs. utf8_encodable n) \<and> utf8_encodable ?d \<longrightarrow>
        generate_pot_file ?d ?S ?fs =
          (pot_header ?d @ concat (map (spec_block ?fs) (sorted_list_of_set ?S)),
           Inr (card ?S))
        \<and> sorted (sorted_list_of_set ?S)
        \<and> distinct (sorted_list_of_set ?S)
        \<and> set (sorted_list_of_set ?S) = ?S
        \<and> generate_pot_file ?d {py ''Coffee''} ?fs =
            (pot_header ?d @
               py ''#: '' @ join (py '', '') ?fs @ [newline] @
               py ''msgid '' @ [dquote] @ py ''Coffee'' @ [dquote, newline] @
               py ''msgstr '' @ [dquote, dquote, newline, newline],
             Inr 1)"
    using t by (rule conjunct1)
  have hyp: "finite ?S \<and> [] \<notin> ?S \<and> (\<forall>s\<in>?S. utf8_encodable s) \<and>
      (\<forall>n\<in>set ?fs. utf8_encodable n) \<and> utf8_encodable ?d"
    by (intro conjI) (rule h1, rule h2, rule h3, rule h4, rule h5)
  have "generate_pot_file ?d ?S ?fs =
          (pot_header ?d @ concat (map (spec_block ?fs) (sorted_list_of_set ?S)),
           Inr (card ?S))"
    using mp [OF imp hyp] by (rule conjunct1)
  then have r: "generate_pot_file ?d ?S ?fs =
       (pot_header ?d @ spec_block ?fs (py ''a'') @ spec_block ?fs (py ''b\<newline>''), Inr 2)"
    by (simp only: o c list.map concat.simps append_Nil2)
  show ?thesis
    by (intro conjI) (rule h1, rule h2, rule encodable_py, rule encodable_py, rule encodable_py,
        rule encodable_py, rule h5, rule r)
qed

text \<open>
  Claim C8 as stated fails on the set that holds the lone surrogate U+D800: the header
  and the comment line are written, then the write of the identifier raises, and no
  count is returned.
\<close>

theorem pot_document_counterexample:
  "finite {[55296 :: nat]}
   \<and> [] \<notin> {[55296 :: nat]}
   \<and> generate_pot_file (py ''2025-01-01 00:00+0000'') {[55296]} [py ''emojis.json''] =
       (pot_header (py ''2025-01-01 00:00+0000'') @ py ''#: emojis.json'' @ [newline],
        Inl UnicodeEncodeError)"
proof -
  have c: "{[55296 :: nat]} - {[]} = {[55296]}"
    by simp
  have e: "escape_string [55296] = [55296]"
    by (simp add: escape_string_def replace_char_def dquote_def backslash_def)
  have n: "\<not> utf8_encodable (55296 # s)" for s
    by (simp add: utf8_encodable_def)
  have j: "py ''#: '' @ py ''emojis.json'' = py ''#: emojis.json''"
    by (simp add: py_def)
  have "generate_pot_file (py ''2025-01-01 00:00+0000'') {[55296]} [py ''emojis.json''] =
       (pot_header (py ''2025-01-01 00:00+0000'') @ py ''#: '' @ py ''emojis.json'' @ [newline],
        Inl UnicodeEncodeError)"
    by (simp add: generate_pot_file_def Let_def c f_write_def e n)
  then show ?thesis
    by (simp add: j [symmetric])
qed

lemma discover_loop_eq:
  "discover_loop ns (json_files, out) =
     (json_files @ filter (\<lambda>n. n \<notin> SKIP_FILES) ns,
      out @ map (\<lambda>n. py ''  Skipping: '' @ n @ py '' (in skip list)'')
              (filter (\<lambda>n. n \<in> SKIP_FILES) ns))"
  by (induction ns arbitrary: json_files out) simp_all

lemma discover_json_files_eq:
  "fst (discover_json_files names) =
     filter (\<lambda>n. n \<notin> SKIP_FILES) (sort (filter (\<lambda>n. endswith n (py ''.json'')) names))"
  by (simp add: discover_json_files_def discover_loop_eq glob_json_def)

lemma no_eligible_iff:
  "fst (discover_json_files names) = [] \<longleftrightarrow>
     (\<forall>n\<in>set names. endswith n (py ''.json'') \<longrightarrow> n \<in> SKIP_FILES)"
  by (auto simp: discover_json_files_eq filter_empty_conv)

text \<open>
  Claim C9. The generator ends with exit code 1, having opened no JSON file and written
  no template, when the number of arguments is not two (the argument vector, with the
  script's name, has not three entries), when the input directory does not exist, and
  when the input path is not a directory. It ends with exit code 0, the nothing-to-do
  message printed last, when every entry of the input directory that matches *.json is
  in the skip list.
\<close>

theorem exit_codes:
  "(length argv \<noteq> 3 \<longrightarrow>
      extract_main fs argv = \<lparr> exit_code = 1, stdout = usage_lines, opened = [], written = None \<rparr>)
   \<and> (length argv = 3 \<and> \<not> path_exists fs (argv ! 2) \<longrightarrow>
      exit_code (extract_main fs argv) = 1 \<and> opened (extract_main fs argv) = [] \<and>
      written (extract_main fs argv) = None)
   \<and> (length argv = 3 \<and> path_exists fs (argv ! 2) \<and> \<not> path_is_dir fs (argv ! 2) \<longrightarrow>
      exit_code (extract_main fs argv) = 1 \<and> opened (extract_main fs argv) = [] \<and>
      written (extract_main fs argv) = None)
   \<and> (length argv = 3 \<and> path_exists fs (argv ! 2) \<and> path_is_dir fs (argv ! 2) \<and>
      (\<forall>n\<in>set (dir_entries fs (argv ! 2)). endswith n (py ''.json'') \<longrightarrow> n \<in> SKIP_FILES) \<longrightarrow>
      exit_code (extract_main fs argv) = 0 \<and>
      last (stdout (extract_main fs argv)) = py ''No JSON files found to process.'' \<and>
      opened (extract_main fs argv) = [] \<and> written (extract_main fs argv) = None)"
proof -
  have a: "length argv \<noteq> 3 \<Longrightarrow>
      extract_main fs argv = \<lparr> exit_code = 1, stdout = usage_lines, opened = [], written = None \<rparr>"
    by (simp add: extract_main_def)
  have b: "exit_code (extract_main fs argv) = 1 \<and> opened (extract_main fs argv) = [] \<and>
      written (extract_main fs argv) = None"
    if "length argv = 3" and "\<not> path_exists fs (argv ! 2)"
    using that by (simp add: extract_main_def Let_def)
  have c: "exit_code (extract_main fs argv) = 1 \<and> opened (extract_main fs argv) = [] \<and>
      written (extract_main fs argv) = None"
    if "length argv = 3" and "path_exists fs (argv ! 2)" and "\<not> path_is_dir fs (argv ! 2)"
    using that by (simp add: extract_main_def Let_def)
  have d: "exit_code (extract_main fs argv) = 0 \<and>
      last (stdout (extract_main fs argv)) = py ''No JSON files found to process.'' \<and>
      opened (extract_main fs argv) = [] \<and> written (extract_main fs argv) = None"
    if "length argv = 3" and "path_exists fs (argv ! 2)" and "path_is_dir fs (argv ! 2)"
      and e: "\<forall>n\<in>set (dir_entries fs (argv ! 2)). endswith n (py ''.json'') \<longrightarrow> n \<in> SKIP_FILES"
  proof -
    obtain skipped where "discover_json_files (dir_entries fs (argv ! 2)) = ([], skipped)"
      using e no_eligible_iff [of "dir_entries fs (argv ! 2)"]
      by (cases "discover_json_files (dir_entries fs (argv ! 2))") simp
    then show ?thesis
      using that(1-3) by (simp add: extract_main_def Let_def)
  qed
  show ?thesis
  proof (intro conjI)
    show "length argv \<noteq> 3 \<longrightarrow>
      extract_main fs argv = \<lparr> exit_code = 1, stdout = usage_lines, opened = [], written = None \<rparr>"
      by (intro impI, rule a, assumption)
    show "length argv = 3 \<and> \<not> path_exists fs (argv ! 2) \<longrightarrow>
      exit_code (extract_main fs argv) = 1 \<and> opened (extract_main fs argv) = [] \<and>
      written (extract_main fs argv) = None"
      by (intro impI, elim conjE, rule b, assumption+)
    show "length argv = 3 \<and> path_exists fs (argv ! 2) \<and> \<not> path_is_dir fs (argv ! 2) \<longrightarrow>
      exit_code (extract_main fs argv) = 1 \<and> opened (extract_main fs argv) = [] \<and>
      written (extract_main fs argv) = None"
      by (intro impI, elim conjE, rule c, assumption+)
    show "length argv = 3 \<and> path_exists fs (argv ! 2) \<and> path_is_dir fs (argv ! 2) \<and>
      (\<forall>n\<in>set (dir_entries fs (argv ! 2)). endswith n (py ''.json'') \<longrightarrow> n \<in> SKIP_FILES) \<longrightarrow>
      exit_code (extract_main fs argv) = 0 \<and>
      last (stdout (extract_main fs argv)) = py ''No JSON files found to process.'' \<and>
      opened (extract_main fs argv) = [] \<and> written (extract_main fs argv) = None"
      by (intro impI, elim conjE, rule d, assumption+)
  qed
qed

lemmas fs_eval = example_fs_def extract_main_def discover_json_files_def glob_json_def
  endswith_def SKIP_FILES_def usage_lines_def squote_def py_def Let_def

text \<open>
  C9 on a file system with a directory that holds only a skipped JSON file and a file
  that is no JSON file: one argument, a missing directory, a plain file, and the
  directory.
\<close>

theorem exit_codes_witness:
  "exit_code (extract_main example_fs [py ''extract-data-strings.py'', py ''out.pot'']) = 1
   \<and> exit_code (extract_main example_fs
         [py ''extract-data-strings.py'', py ''out.pot'', py ''missing'']) = 1
   \<and> exit_code (extract_main example_fs
         [py ''extract-data-strings.py'', py ''out.pot'', py ''notes.txt'']) = 1
   \<and> exit_code (extract_main example_fs
         [py ''extract-data-strings.py'', py ''out.pot'', py ''data'']) = 0
   \<and> stdout (extract_main example_fs
         [py ''extract-data-strings.py'', py ''out.pot'', py ''data'']) =
       [py ''Scanning directory: data'', [],
        py ''  Skipping: countries.json (in skip list)'',
        py ''No JSON files found to process.'']"
proof -
  let ?a1 = "[py ''extract-data-strings.py'', py ''out.pot'']"
  let ?a2 = "[py ''extract-data-strings.py'', py ''out.pot'', py ''missing'']"
  let ?a3 = "[py ''extract-data-strings.py'', py ''out.pot'', py ''notes.txt'']"
  let ?a4 = "[py ''extract-data-strings.py'', py ''out.pot'', py ''data'']"
  have 1: "exit_code (extract_main example_fs ?a1) = 1"
    using exit_codes [of ?a1 example_fs] by simp
  have "length ?a2 = 3 \<and> \<not> path_exists example_fs (?a2 ! 2)"
    by (simp add: example_fs_def py_def)
  then have 2: "exit_code (extract_main example_fs ?a2) = 1"
    using exit_codes [of ?a2 example_fs] by blast
  have "length ?a3 = 3 \<and> path_exists example_fs (?a3 ! 2) \<and> \<not> path_is_dir example_fs (?a3 ! 2)"
    by (simp add: example_fs_def py_def)
  then have 3: "exit_code (extract_main example_fs ?a3) = 1"
    using exit_codes [of ?a3 example_fs] by blast
  have "length ?a4 = 3 \<and> path_exists example_fs (?a4 ! 2) \<and> path_is_dir example_fs (?a4 ! 2) \<and>
      (\<forall>n\<in>set (dir_entries example_fs (?a4 ! 2)). endswith n (py ''.json'') \<longrightarrow> n \<in> SKIP_FILES)"
    by (simp add: example_fs_def endswith_def SKIP_FILES_def py_def)
  then have 4: "exit_code (extract_main example_fs ?a4) = 0"
    using exit_codes [of ?a4 example_fs] by blast
  have 5: "stdout (extract_main example_fs ?a4) =
       [py ''Scanning directory: data'', [],
        py ''  Skipping: countries.json (in skip list)'',
        py ''No JSON files found to process.'']"
    by (simp add: fs_eval)
  show ?thesis
    by (intro conjI) (rule 1, rule 2, rule 3, rule 4, rule 5)
qed

end
